theory Spec2Isabelle
  imports Complex_Main "HOL-Library.Word" "HOL-Library.Log_Nat"
begin

section \<open>The TreasuryBot contract\<close>

text \<open>
  The contract is Solidity (pragma 0.8.20). Its storage is a record, its custom errors a
  datatype, and every external function a HOL function from the storage (and the state of
  the token contract) to either an error or the new storage. A revert anywhere in a call
  discards every write of that call: \<open>transact\<close> below returns the old state with
  the error. Arithmetic on \<open>uint256\<close> is checked (Solidity 0.8): an overflowing
  \<open>+\<close> or an underflowing \<open>-\<close> reverts with \<open>Panic\<close>.
\<close>

type_synonym address = "160 word"
type_synonym uint256 = "256 word"

datatype error =
    NotMember
  | AlreadyMember
  | InvalidAmount
  | ProposalNotFound
  | AlreadyVoted
  | ProposalAlreadyExecuted
  | InsufficientTreasuryBalance
  | ProposalNotApproved
  | UnauthorizedAIExecution
  | InvalidRecipient
  | OwnableUnauthorizedAccount address
  | OwnableInvalidOwner address
  | RequireFailed string
  | SafeERC20FailedOperation
  | Panic

datatype event =
    MemberAdded address
  | MemberRemoved address
  | Deposited address uint256
  | ProposalCreated uint256 address address uint256 string
  | Voted uint256 address bool
  | ProposalExecuted uint256 address bool
  | AIOrracleUpdated address address

record proposal =
  id :: uint256
  proposer :: address
  recipient :: address
  amount :: uint256
  description :: string
  votesFor :: uint256
  votesAgainst :: uint256
  hasVoted :: "address \<Rightarrow> bool"
  executed :: bool
  createdAt :: uint256

text \<open>
  The storage of the contract. \<open>self\<close> is \<open>address(this)\<close>, \<open>owner\<close> the
  owner kept by \<open>Ownable\<close>, \<open>events\<close> the log of emitted events (a revert drops the
  events of the call as well).
\<close>

record ledger =
  self :: address
  owner :: address
  mneeToken :: address
  aiOracle :: address
  isMember :: "address \<Rightarrow> bool"
  members :: "address list"
  memberCount :: uint256
  proposals :: "uint256 \<Rightarrow> proposal"
  proposalCount :: uint256
  deposits :: "address \<Rightarrow> uint256"
  totalDeposits :: uint256
  events :: "event list"

text \<open>
  The token is another contract, reached through \<open>IERC20\<close> and OpenZeppelin's
  \<open>SafeERC20\<close>; its code is not part of the repository, so its behaviour is a
  parameter. \<open>'t\<close> is the token contract's own state. \<open>transfer\<close> and
  \<open>transferFrom\<close> take the caller (the treasury) and return \<open>None\<close> when the
  token call reverts or returns false, which is when \<open>safeTransfer\<close> and
  \<open>safeTransferFrom\<close> revert. Their first argument is the treasury's storage at the
  moment of the call: the callee can read it through the treasury's public getters, and
  the order of the writes and the call shows there. The token calls are atomic: they do
  not call back into the treasury.
\<close>

record 't erc20 =
  balanceOf :: "'t \<Rightarrow> address \<Rightarrow> uint256"
  transfer :: "ledger \<Rightarrow> 't \<Rightarrow> address \<Rightarrow> address \<Rightarrow> uint256 \<Rightarrow> 't option"
  transferFrom :: "ledger \<Rightarrow> 't \<Rightarrow> address \<Rightarrow> address \<Rightarrow> address \<Rightarrow> uint256 \<Rightarrow> 't option"

type_synonym 't world = "ledger \<times> 't"

definition checked_add :: "uint256 \<Rightarrow> uint256 \<Rightarrow> error + uint256" where
  "checked_add a b = (if unat a + unat b < 2 ^ 256 then Inr (a + b) else Inl Panic)"

definition checked_sub :: "uint256 \<Rightarrow> uint256 \<Rightarrow> error + uint256" where
  "checked_sub a b = (if unat b \<le> unat a then Inr (a - b) else Inl Panic)"

text \<open>A call is atomic: on a revert the state is the one before the call.\<close>

definition transact :: "('w \<Rightarrow> error + 'r \<times> 'w) \<Rightarrow> 'w \<Rightarrow> (error + 'r) \<times> 'w" where
  "transact body w = (case body w of Inl e \<Rightarrow> (Inl e, w) | Inr (r, w') \<Rightarrow> (Inr r, w'))"

definition empty_proposal :: proposal where
  "empty_proposal = \<lparr> id = 0, proposer = 0, recipient = 0, amount = 0, description = [],
     votesFor = 0, votesAgainst = 0, hasVoted = (\<lambda>_. False), executed = False,
     createdAt = 0 \<rparr>"

text \<open>
  The constructor: \<open>Ownable(initialOwner_arg)\<close> runs first and rejects the zero owner, then
  the body requires a non-zero token address. Every other storage slot starts at zero.
\<close>

definition constructor :: "address \<Rightarrow> address \<Rightarrow> address \<Rightarrow> error + ledger" where
  "constructor this mneeToken_arg initialOwner_arg =
     (if initialOwner_arg = 0 then Inl (OwnableInvalidOwner 0)
      else if mneeToken_arg = 0 then Inl (RequireFailed ''Invalid token address'')
      else Inr \<lparr> self = this, owner = initialOwner_arg, mneeToken = mneeToken_arg, aiOracle = 0,
        isMember = (\<lambda>_. False), members = [], memberCount = 0,
        proposals = (\<lambda>_. empty_proposal), proposalCount = 0,
        deposits = (\<lambda>_. 0), totalDeposits = 0, events = [] \<rparr>)"

subsection \<open>Member management\<close>

definition addMember :: "address \<Rightarrow> address \<Rightarrow> 't world \<Rightarrow> error + unit \<times> 't world" where
  "addMember sender member_arg w =
     (let l = fst w in
      if sender \<noteq> owner l then Inl (OwnableUnauthorizedAccount sender)
      else if isMember l member_arg then Inl AlreadyMember
      else
        (let l1 = l\<lparr>isMember := (isMember l)(member_arg := True)\<rparr>;
             l2 = l1\<lparr>members := members l1 @ [member_arg]\<rparr>
         in case checked_add (memberCount l2) 1 of
              Inl e \<Rightarrow> Inl e
            | Inr c \<Rightarrow>
                (let l3 = l2\<lparr>memberCount := c\<rparr>
                 in Inr ((), l3\<lparr>events := events l3 @ [MemberAdded member_arg]\<rparr>, snd w))))"

definition removeMember :: "address \<Rightarrow> address \<Rightarrow> 't world \<Rightarrow> error + unit \<times> 't world" where
  "removeMember sender member_arg w =
     (let l = fst w in
      if sender \<noteq> owner l then Inl (OwnableUnauthorizedAccount sender)
      else if \<not> isMember l member_arg then Inl NotMember
      else
        (let l1 = l\<lparr>isMember := (isMember l)(member_arg := False)\<rparr>
         in case checked_sub (memberCount l1) 1 of
              Inl e \<Rightarrow> Inl e
            | Inr c \<Rightarrow>
                (let l2 = l1\<lparr>memberCount := c\<rparr>
                 in Inr ((), l2\<lparr>events := events l2 @ [MemberRemoved member_arg]\<rparr>, snd w))))"

definition checkMember :: "address \<Rightarrow> 't world \<Rightarrow> bool" where
  "checkMember address_arg w = isMember (fst w) address_arg"

definition getAllMembers :: "'t world \<Rightarrow> address list" where
  "getAllMembers w = members (fst w)"

subsection \<open>Deposits\<close>

text \<open>
  \<open>deposit\<close> writes both counters first and calls \<open>safeTransferFrom\<close> last. The
  \<open>nonReentrant\<close> modifier is not modelled: the token calls are atomic here (they do not
  call back into the treasury), so the guard never fires.
\<close>

definition deposit :: "'t erc20 \<Rightarrow> address \<Rightarrow> uint256 \<Rightarrow> 't world \<Rightarrow> error + unit \<times> 't world" where
  "deposit tok sender amount_arg w =
     (let l = fst w in
      if \<not> isMember l sender then Inl NotMember
      else if amount_arg = 0 then Inl InvalidAmount
      else
        (case checked_add (deposits l sender) amount_arg of
           Inl e \<Rightarrow> Inl e
         | Inr d \<Rightarrow>
             (let l1 = l\<lparr>deposits := (deposits l)(sender := d)\<rparr>
              in case checked_add (totalDeposits l1) amount_arg of
                   Inl e \<Rightarrow> Inl e
                 | Inr t \<Rightarrow>
                     (let l2 = l1\<lparr>totalDeposits := t\<rparr>
                      in case transferFrom tok l2 (snd w) (self l2) sender (self l2) amount_arg of
                           None \<Rightarrow> Inl SafeERC20FailedOperation
                         | Some ts \<Rightarrow>
                             Inr ((), l2\<lparr>events := events l2 @ [Deposited sender amount_arg]\<rparr>,
                                  ts)))))"

definition getTreasuryBalance :: "'t erc20 \<Rightarrow> 't world \<Rightarrow> uint256" where
  "getTreasuryBalance tok w = balanceOf tok (snd w) (self (fst w))"

subsection \<open>Proposals\<close>

text \<open>
  \<open>createProposal\<close> takes the next id with \<open>proposalCount++\<close> and writes six fields of
  the slot \<open>proposals[proposalId]\<close>; the tallies, the has-voted mapping and the executed
  flag of the slot are not written. \<open>now\<close> is \<open>block.timestamp\<close>.
\<close>

definition createProposal ::
  "address \<Rightarrow> uint256 \<Rightarrow> address \<Rightarrow> uint256 \<Rightarrow> string \<Rightarrow> 't world \<Rightarrow> error + uint256 \<times> 't world" where
  "createProposal sender now recipient_arg amount_arg description_arg w =
     (let l = fst w in
      if \<not> isMember l sender then Inl NotMember
      else if recipient_arg = 0 then Inl InvalidRecipient
      else if amount_arg = 0 then Inl InvalidAmount
      else
        (case checked_add (proposalCount l) 1 of
           Inl e \<Rightarrow> Inl e
         | Inr c \<Rightarrow>
             (let proposalId = proposalCount l;
                  l1 = l\<lparr>proposalCount := c\<rparr>;
                  p = (proposals l1 proposalId)
                        \<lparr>id := proposalId, proposer := sender, recipient := recipient_arg,
                         amount := amount_arg, description := description_arg,
                         createdAt := now\<rparr>;
                  l2 = l1\<lparr>proposals := (proposals l1)(proposalId := p)\<rparr>
              in Inr (proposalId,
                      l2\<lparr>events := events l2 @
                           [ProposalCreated proposalId sender recipient_arg amount_arg
                              description_arg]\<rparr>,
                      snd w))))"

definition vote :: "address \<Rightarrow> uint256 \<Rightarrow> bool \<Rightarrow> 't world \<Rightarrow> error + unit \<times> 't world" where
  "vote sender proposalId support w =
     (let l = fst w in
      if \<not> isMember l sender then Inl NotMember
      else if proposalCount l \<le> proposalId then Inl ProposalNotFound
      else
        (let p = proposals l proposalId in
         if executed p then Inl ProposalAlreadyExecuted
         else if hasVoted p sender then Inl AlreadyVoted
         else
           (let p1 = p\<lparr>hasVoted := (hasVoted p)(sender := True)\<rparr>
            in case (if support then checked_add (votesFor p1) 1
                     else checked_add (votesAgainst p1) 1) of
                 Inl e \<Rightarrow> Inl e
               | Inr n \<Rightarrow>
                   (let p2 = (if support then p1\<lparr>votesFor := n\<rparr> else p1\<lparr>votesAgainst := n\<rparr>);
                        l1 = l\<lparr>proposals := (proposals l)(proposalId := p2)\<rparr>
                    in Inr ((), l1\<lparr>events := events l1 @ [Voted proposalId sender support]\<rparr>,
                            snd w)))))"

text \<open>
  The two execution paths. Both set \<open>executed\<close> in storage and then call
  \<open>safeTransfer\<close>, which is handed the storage with the flag already written; when it
  fails the whole call reverts.
\<close>

definition executeProposal :: "'t erc20 \<Rightarrow> address \<Rightarrow> uint256 \<Rightarrow> 't world \<Rightarrow> error + unit \<times> 't world" where
  "executeProposal tok sender proposalId w =
     (let l = fst w in
      if proposalCount l \<le> proposalId then Inl ProposalNotFound
      else
        (let p = proposals l proposalId in
         if executed p then Inl ProposalAlreadyExecuted
         else
           (case checked_add (memberCount l div 2) 1 of
              Inl e \<Rightarrow> Inl e
            | Inr requiredVotes \<Rightarrow>
                if votesFor p < requiredVotes then Inl ProposalNotApproved
                else
                  (let balance = balanceOf tok (snd w) (self l) in
                   if balance < amount p then Inl InsufficientTreasuryBalance
                   else
                     (let p1 = p\<lparr>executed := True\<rparr>;
                          l1 = l\<lparr>proposals := (proposals l)(proposalId := p1)\<rparr>
                      in case transfer tok l1 (snd w) (self l1) (recipient p1) (amount p1) of
                           None \<Rightarrow> Inl SafeERC20FailedOperation
                         | Some ts \<Rightarrow>
                             Inr ((), l1\<lparr>events := events l1 @
                                         [ProposalExecuted proposalId sender False]\<rparr>,
                                  ts))))))"

definition autoExecute :: "'t erc20 \<Rightarrow> address \<Rightarrow> uint256 \<Rightarrow> 't world \<Rightarrow> error + unit \<times> 't world" where
  "autoExecute tok sender proposalId w =
     (let l = fst w in
      if sender \<noteq> aiOracle l then Inl UnauthorizedAIExecution
      else if proposalCount l \<le> proposalId then Inl ProposalNotFound
      else
        (let p = proposals l proposalId in
         if executed p then Inl ProposalAlreadyExecuted
         else
           (let balance = balanceOf tok (snd w) (self l) in
            if balance < amount p then Inl InsufficientTreasuryBalance
            else
              (let p1 = p\<lparr>executed := True\<rparr>;
                   l1 = l\<lparr>proposals := (proposals l)(proposalId := p1)\<rparr>
               in case transfer tok l1 (snd w) (self l1) (recipient p1) (amount p1) of
                    None \<Rightarrow> Inl SafeERC20FailedOperation
                  | Some ts \<Rightarrow>
                      Inr ((), l1\<lparr>events := events l1 @
                                  [ProposalExecuted proposalId sender True]\<rparr>,
                           ts)))))"

definition setAIOracle :: "address \<Rightarrow> address \<Rightarrow> 't world \<Rightarrow> error + unit \<times> 't world" where
  "setAIOracle sender oracle_arg w =
     (let l = fst w in
      if sender \<noteq> owner l then Inl (OwnableUnauthorizedAccount sender)
      else
        (let oldOracle = aiOracle l;
             l1 = l\<lparr>aiOracle := oracle_arg\<rparr>
         in Inr ((), l1\<lparr>events := events l1 @ [AIOrracleUpdated oldOracle oracle_arg]\<rparr>,
                 snd w)))"

subsection \<open>View functions\<close>

definition getProposal :: "uint256 \<Rightarrow> 't world \<Rightarrow> error + proposal" where
  "getProposal proposalId w =
     (if proposalCount (fst w) \<le> proposalId then Inl ProposalNotFound
      else Inr (proposals (fst w) proposalId))"

definition hasVoted_view :: "uint256 \<Rightarrow> address \<Rightarrow> 't world \<Rightarrow> error + bool" where
  "hasVoted_view proposalId member_arg w =
     (if proposalCount (fst w) \<le> proposalId then Inl ProposalNotFound
      else Inr (hasVoted (proposals (fst w) proposalId) member_arg))"

subsection \<open>Transactions and histories\<close>

text \<open>
  The state-changing functions the contract declares, as calls; a transaction is a call
  with its \<open>msg.sender\<close> and \<open>block.timestamp\<close>. \<open>perform\<close> runs one transaction
  atomically, \<open>run\<close> a list of them in order. Transactions are serialised: two calls
  that race are two transactions in one of the two orders. Between the treasury's
  transactions the token lives on: \<open>TokenActivity f\<close> is anything that happens to the
  token without the treasury (transfers between holders, a pause by the token's admin), as
  a change \<open>f\<close> of the token's state.
\<close>

datatype 't call =
    AddMember address
  | RemoveMember address
  | Deposit uint256
  | CreateProposal address uint256 string
  | Vote uint256 bool
  | ExecuteProposal uint256
  | AutoExecute uint256
  | SetAIOracle address
  | TokenActivity "'t \<Rightarrow> 't"

type_synonym 't tx = "address \<times> uint256 \<times> 't call"

definition drop_result :: "(error + 'r) \<times> 'w \<Rightarrow> (error + unit) \<times> 'w" where
  "drop_result r = (case fst r of Inl e \<Rightarrow> Inl e | Inr _ \<Rightarrow> Inr (), snd r)"

fun perform :: "'t erc20 \<Rightarrow> 't tx \<Rightarrow> 't world \<Rightarrow> (error + unit) \<times> 't world" where
  "perform tok (sender, now, AddMember m) w = transact (addMember sender m) w"
| "perform tok (sender, now, RemoveMember m) w = transact (removeMember sender m) w"
| "perform tok (sender, now, Deposit a) w = transact (deposit tok sender a) w"
| "perform tok (sender, now, CreateProposal r a d) w =
     drop_result (transact (createProposal sender now r a d) w)"
| "perform tok (sender, now, Vote i s) w = transact (vote sender i s) w"
| "perform tok (sender, now, ExecuteProposal i) w = transact (executeProposal tok sender i) w"
| "perform tok (sender, now, AutoExecute i) w = transact (autoExecute tok sender i) w"
| "perform tok (sender, now, SetAIOracle a) w = transact (setAIOracle sender a) w"
| "perform tok (sender, now, TokenActivity f) w = (Inr (), fst w, f (snd w))"

fun run :: "'t erc20 \<Rightarrow> 't world \<Rightarrow> 't tx list \<Rightarrow> 't world" where
  "run tok w [] = w"
| "run tok w (t # ts) = run tok (snd (perform tok t w)) ts"

text \<open>How many of the transactions of a history are successful executions of one id.\<close>

fun is_execution_of :: "uint256 \<Rightarrow> 't tx \<Rightarrow> bool" where
  "is_execution_of i (sender, now, ExecuteProposal j) = (i = j)"
| "is_execution_of i (sender, now, AutoExecute j) = (i = j)"
| "is_execution_of i (sender, now, c) = False"

fun executions :: "'t erc20 \<Rightarrow> uint256 \<Rightarrow> 't world \<Rightarrow> 't tx list \<Rightarrow> nat" where
  "executions tok i w [] = 0"
| "executions tok i w (t # ts) =
     (if is_execution_of i t \<and> fst (perform tok t w) = Inr () then 1 else 0)
     + executions tok i (snd (perform tok t w)) ts"

section \<open>The oracle's decision function\<close>

text \<open>
  \<open>AIOracle.aiDecision\<close> is JavaScript. It turns the amount and the treasury balance
  (both \<open>uint256\<close> amounts of wei) into JavaScript Numbers with
  \<open>Number(ethers.formatEther(x))\<close> and compares those. A Number is an IEEE 754 binary64
  value; the finite ones are rationals, so a Number is modelled by its value in \<open>rat\<close>.
  \<open>formatEther\<close> prints the exact decimal \<open>x / 10^18\<close>, \<open>Number\<close> reads a
  decimal as the nearest binary64 value (ties to the even significand), and \<open>-\<close> on
  Numbers is the exact difference rounded the same way. All values here lie between
  \<open>2^-200\<close> and \<open>2^200\<close> in magnitude, far from the subnormal and the overflow range,
  so rounding is to 53 significant bits.
\<close>

definition pow2 :: "int \<Rightarrow> rat" where
  "pow2 e = (if 0 \<le> e then 2 ^ nat e else 1 / 2 ^ nat (- e))"

text \<open>For \<open>a > 0\<close>, the \<open>e\<close> with \<open>2^e \<le> a < 2^(e+1)\<close>.\<close>

definition floor_log2 :: "rat \<Rightarrow> int" where
  "floor_log2 a =
     (if 1 \<le> a then bitlen \<lfloor>a\<rfloor> - 1
      else (let k = bitlen \<lfloor>1 / a\<rfloor> - 1 in if a * 2 ^ nat k = 1 then - k else - k - 1))"

definition round_half_even :: "rat \<Rightarrow> int" where
  "round_half_even q =
     (let f = \<lfloor>q\<rfloor>; r = q - of_int f
      in if r < 1 / 2 then f else if 1 / 2 < r then f + 1 else if even f then f else f + 1)"

definition to_double :: "rat \<Rightarrow> rat" where
  "to_double x =
     (if x = 0 then 0
      else (let u = pow2 (floor_log2 \<bar>x\<bar> - 52)
            in sgn x * of_int (round_half_even (\<bar>x\<bar> / u)) * u))"

definition formatEther :: "uint256 \<Rightarrow> rat" where
  "formatEther wei = of_nat (unat wei) / 10 ^ 18"

definition Number :: "rat \<Rightarrow> rat" where
  "Number s = to_double s"

definition minus_Number :: "rat \<Rightarrow> rat \<Rightarrow> rat" where
  "minus_Number a b = to_double (a - b)"

text \<open>
  The description is the byte string of its UTF-8 encoding. \<open>toLowerCase\<close> maps the
  letters A to Z; the bytes of other characters stay, and none of them is a letter of the
  four keywords.
\<close>

definition toLowerCase :: "string \<Rightarrow> string" where
  "toLowerCase s = map (\<lambda>c. case map_of (zip ''ABCDEFGHIJKLMNOPQRSTUVWXYZ''
                                              ''abcdefghijklmnopqrstuvwxyz'') c of
                              Some d \<Rightarrow> d | None \<Rightarrow> c) s"

fun startsWith :: "string \<Rightarrow> string \<Rightarrow> bool" where
  "startsWith s [] = True"
| "startsWith [] (c # cs) = False"
| "startsWith (h # hs) (c # cs) = (h = c \<and> startsWith hs cs)"

fun includes_str :: "string \<Rightarrow> string \<Rightarrow> bool" where
  "includes_str [] n = (n = [])"
| "includes_str (h # hs) n = (startsWith (h # hs) n \<or> includes_str hs n)"

text \<open>
  \<open>aiDecision(proposal, description)\<close>; the treasury balance is read from the contract
  with \<open>getTreasuryBalance\<close>. \<open>True\<close> is "execute", \<open>False\<close> is "skip".
\<close>

definition aiDecision :: "'t erc20 \<Rightarrow> 't world \<Rightarrow> proposal \<Rightarrow> string \<Rightarrow> bool" where
  "aiDecision tok w proposal_arg description_arg =
     (let amountInMNEE = Number (formatEther (amount proposal_arg));
          descriptionLower = toLowerCase description_arg
      in if includes_str descriptionLower ''emergency'' \<and> amountInMNEE < 10 then True
         else if includes_str descriptionLower ''subscription'' \<and> amountInMNEE < 50 then True
         else if includes_str descriptionLower ''gas'' \<and> amountInMNEE < 5 then True
         else
           (let treasuryBalance = getTreasuryBalance tok w;
                balanceAfter = minus_Number (Number (formatEther treasuryBalance)) amountInMNEE
            in if balanceAfter < 100 then False
               else if includes_str descriptionLower ''urgent'' \<and> amountInMNEE < 20 then True
               else False))"

subsection \<open>The rule list of the specification\<close>

text \<open>
  The specification's wording of the policy: an ordered list of rules over the amount, the
  description and the projected balance after execution, the first rule that matches
  decides, and no match means \<open>Deferred\<close>.
\<close>

datatype decision = Approved | Deferred

fun first_match :: "(('a \<Rightarrow> bool) \<times> decision) list \<Rightarrow> 'a \<Rightarrow> decision" where
  "first_match [] x = Deferred"
| "first_match ((p, d) # rs) x = (if p x then d else first_match rs x)"

definition contains_ci :: "string \<Rightarrow> string \<Rightarrow> bool" where
  "contains_ci text_arg word_arg = includes_str (toLowerCase text_arg) (toLowerCase word_arg)"

definition reference_rules :: "((rat \<times> string \<times> rat \<Rightarrow> bool) \<times> decision) list" where
  "reference_rules =
     [(\<lambda>(a, d, after). contains_ci d ''emergency'' \<and> a < 10, Approved),
      (\<lambda>(a, d, after). contains_ci d ''subscription'' \<and> a < 50, Approved),
      (\<lambda>(a, d, after). contains_ci d ''gas'' \<and> a < 5, Approved),
      (\<lambda>(a, d, after). after < 100, Deferred),
      (\<lambda>(a, d, after). contains_ci d ''urgent'' \<and> a < 20, Approved)]"

definition oracle_policy :: "rat \<Rightarrow> string \<Rightarrow> rat \<Rightarrow> decision" where
  "oracle_policy a d after = first_match reference_rules (a, d, after)"

section \<open>Notions used in the statements\<close>

text \<open>
  Facts about proposal \<open>i\<close> that no later transaction undoes: the id is allocated, the
  identities of \<open>V\<close> have voted on it and, when \<open>x\<close> holds, it is executed.
\<close>

definition latched :: "uint256 \<Rightarrow> address set \<Rightarrow> bool \<Rightarrow> 't world \<Rightarrow> bool" where
  "latched i V x w \<longleftrightarrow>
     i < proposalCount (fst w) \<and> (x \<longrightarrow> executed (proposals (fst w) i))
     \<and> (\<forall>a\<in>V. hasVoted (proposals (fst w) i) a)"

text \<open>Slots at and above \<open>proposalCount\<close> have never been written.\<close>

definition fresh_slots :: "'t world \<Rightarrow> bool" where
  "fresh_slots w \<longleftrightarrow>
     (\<forall>i. proposalCount (fst w) \<le> i \<longrightarrow> proposals (fst w) i = empty_proposal)"

text \<open>The storage at the moment of the external call of an execution, and of a deposit.\<close>

definition mark_executed :: "uint256 \<Rightarrow> ledger \<Rightarrow> ledger" where
  "mark_executed i l = l\<lparr>proposals := (proposals l)(i := (proposals l i)\<lparr>executed := True\<rparr>)\<rparr>"

definition credit :: "address \<Rightarrow> uint256 \<Rightarrow> ledger \<Rightarrow> ledger" where
  "credit a v l = l\<lparr>deposits := (deposits l)(a := deposits l a + v),
                    totalDeposits := totalDeposits l + v\<rparr>"

definition new_proposal ::
  "uint256 \<Rightarrow> address \<Rightarrow> uint256 \<Rightarrow> address \<Rightarrow> uint256 \<Rightarrow> string \<Rightarrow> proposal" where
  "new_proposal n sender now r v d =
     \<lparr> id = n, proposer = sender, recipient = r, amount = v, description = d,
       votesFor = 0, votesAgainst = 0, hasVoted = (\<lambda>_. False), executed = False,
       createdAt = now \<rparr>"

text \<open>
  Two tokens that report the same balances and whose \<open>transfer\<close> agrees whenever the
  caller's storage shows proposal \<open>i\<close> as executed.
\<close>

definition same_when_executed :: "uint256 \<Rightarrow> 't erc20 \<Rightarrow> 't erc20 \<Rightarrow> bool" where
  "same_when_executed i tok tok' \<longleftrightarrow>
     balanceOf tok = balanceOf tok'
     \<and> (\<forall>l ts c r v. executed (proposals l i) \<longrightarrow>
           transfer tok l ts c r v = transfer tok' l ts c r v)"

section \<open>A token and a history to run the contract on\<close>

text \<open>
  A token with balances and a pause switch (allowances are left out): a transfer fails
  when the token is paused or the balance is too small. \<open>watching_token i\<close> is the same
  token, except that it refuses a transfer unless the calling treasury's storage shows
  proposal \<open>i\<close> as executed.
\<close>

record token_state =
  balances :: "address \<Rightarrow> uint256"
  paused :: bool

definition move :: "(address \<Rightarrow> uint256) \<Rightarrow> address \<Rightarrow> address \<Rightarrow> uint256 \<Rightarrow> address \<Rightarrow> uint256" where
  "move b from to v = (let b1 = b(from := b from - v) in b1(to := b1 to + v))"

definition pausable_token :: "token_state erc20" where
  "pausable_token = \<lparr>
     balanceOf = (\<lambda>ts a. balances ts a),
     transfer = (\<lambda>l ts caller to v.
       if paused ts \<or> balances ts caller < v then None
       else Some (ts\<lparr>balances := move (balances ts) caller to v\<rparr>)),
     transferFrom = (\<lambda>l ts caller from to v.
       if paused ts \<or> balances ts from < v then None
       else Some (ts\<lparr>balances := move (balances ts) from to v\<rparr>)) \<rparr>"

definition watching_token :: "uint256 \<Rightarrow> token_state erc20" where
  "watching_token i = pausable_token\<lparr>transfer := (\<lambda>l ts caller to v.
       if executed (proposals l i) then transfer pausable_token l ts caller to v else None)\<rparr>"

text \<open>
  The treasury at address 100 with owner 1 and token 200; members 2, 3 and 4, oracle 7.
  Member 2 holds 1000 and deposits it, member 3 proposes to pay 100 to address 9, then
  members 2 and 3 vote for it.
\<close>

definition deployed :: ledger where
  "deployed = \<lparr> self = 100, owner = 1, mneeToken = 200, aiOracle = 0,
        isMember = (\<lambda>_. False), members = [], memberCount = 0,
        proposals = (\<lambda>_. empty_proposal), proposalCount = 0,
        deposits = (\<lambda>_. 0), totalDeposits = 0, events = [] \<rparr>"

definition funded :: token_state where
  "funded = \<lparr> balances = (\<lambda>_. 0)(2 := 1000), paused = False \<rparr>"

definition joining :: "token_state tx list" where
  "joining = [(1, 0, AddMember 2), (1, 0, AddMember 3), (1, 0, AddMember 4),
              (1, 0, SetAIOracle 7)]"

definition joined :: "token_state world" where
  "joined = run pausable_token (deployed, funded) joining"

definition pending :: "token_state world" where
  "pending = run pausable_token joined
     [(2, 1, Deposit 1000), (3, 2, CreateProposal 9 100 ''subscription renewal'')]"

definition one_vote :: "token_state world" where
  "one_vote = run pausable_token pending [(2, 3, Vote 0 True)]"

definition approved :: "token_state world" where
  "approved = run pausable_token one_vote [(3, 4, Vote 0 True)]"

definition paid :: "token_state world" where
  "paid = run pausable_token approved [(3, 5, ExecuteProposal 0)]"

definition grown :: "token_state world" where
  "grown = run pausable_token approved [(1, 5, AddMember 5), (1, 5, AddMember 6)]"

definition overdrawn :: "token_state world" where
  "overdrawn = run pausable_token pending
     [(3, 3, CreateProposal 9 5000 ''audit''), (2, 4, Vote 1 True), (3, 4, Vote 1 True)]"

definition approved_paused :: "token_state world" where
  "approved_paused =
     run pausable_token approved [(0, 5, TokenActivity (\<lambda>ts. ts\<lparr>paused := True\<rparr>))]"

definition leaving :: "token_state tx list" where
  "leaving = [(1, 0, AddMember 2), (1, 1, RemoveMember 2)]"

definition rejoining :: "token_state tx list" where
  "rejoining = leaving @ [(1, 2, AddMember 2)]"

text \<open>A treasury holding exactly 100 tokens, and a proposal to pay one wei.\<close>

definition hundred_tokens :: "token_state world" where
  "hundred_tokens =
     (deployed, \<lparr> balances = (\<lambda>_. 0)(100 := 100000000000000000000), paused = False \<rparr>)"

definition one_wei_urgent :: proposal where
  "one_wei_urgent = new_proposal 0 2 0 9 1 ''urgent''"

text \<open>
  A treasury holding 500 tokens, and a proposal to pay one wei less than 10 tokens.
\<close>

definition five_hundred_tokens :: "token_state world" where
  "five_hundred_tokens =
     (deployed, \<lparr> balances = (\<lambda>_. 0)(100 := 500000000000000000000), paused = False \<rparr>)"

definition nearly_ten_emergency :: proposal where
  "nearly_ten_emergency = new_proposal 0 2 0 9 9999999999999999999 ''Emergency repair''"

section \<open>Checked arithmetic and atomic calls\<close>

lemma half_bound: "unat ((m::uint256) div 2) + 1 < 2 ^ 256"
proof -
  have "unat m < 2 ^ 256" using unsigned_less [of m] by simp
  then have "unat m div 2 < 2 ^ 255" by simp
  then show ?thesis by (simp add: unat_div)
qed

lemma unat_required: "unat ((m::uint256) div 2 + 1) = unat m div 2 + 1"
proof -
  have "unat (m div 2) + unat (1::uint256) < 2 ^ LENGTH(256)"
    using half_bound [of m] by simp
  then have "unat (m div 2 + 1) = unat (m div 2) + unat (1::uint256)"
    by (simp only: unat_add_lem)
  then show ?thesis by (simp add: unat_div)
qed

lemma checked_add_half: "checked_add (m div 2) 1 = Inr (m div 2 + 1)"
  using half_bound [of m] by (simp add: checked_add_def)

lemma checked_add_ok: "unat a + unat b < 2 ^ 256 \<Longrightarrow> checked_add a b = Inr (a + b)"
  by (simp add: checked_add_def)

lemma checked_add_Inr: "checked_add a b = Inr c \<Longrightarrow> c = a + b \<and> unat c = unat a + unat b"
proof -
  assume h: "checked_add a b = Inr c"
  then have lt: "unat a + unat b < 2 ^ LENGTH(256)" and c: "c = a + b"
    by (auto simp: checked_add_def split: if_splits)
  from lt have "unat (a + b) = unat a + unat b" by (simp only: unat_add_lem)
  with c show ?thesis by simp
qed

lemma checked_sub_Inr: "checked_sub a b = Inr c \<Longrightarrow> c = a - b \<and> unat c + unat b = unat a"
proof -
  assume h: "checked_sub a b = Inr c"
  then have le: "unat b \<le> unat a" and c: "c = a - b"
    by (auto simp: checked_sub_def split: if_splits)
  from le have "b \<le> a" by (simp add: word_le_nat_alt)
  then have "unat (a - b) = unat a - unat b" by (rule unat_sub)
  with c le show ?thesis by simp
qed

lemma checked_succ_less: "checked_add c 1 = Inr c' \<Longrightarrow> i < c \<Longrightarrow> i < c' \<and> i \<noteq> c"
  by (auto dest!: checked_add_Inr simp: word_less_nat_alt)

lemma checked_succ_le: "checked_add c 1 = Inr c' \<Longrightarrow> c' \<le> i \<Longrightarrow> c \<le> i \<and> i \<noteq> c"
  by (auto dest!: checked_add_Inr simp: word_le_nat_alt)

lemma transact_Inl: "body w = Inl e \<Longrightarrow> transact body w = (Inl e, w)"
  by (simp add: transact_def)

lemma transact_fails_unchanged:
  "fst (transact body w) = Inl e \<Longrightarrow> snd (transact body w) = w"
  by (auto simp: transact_def split: sum.splits)

lemma transact_Inr_iff: "fst (transact body w) = Inr r \<longleftrightarrow> (\<exists>w'. body w = Inr (r, w'))"
  by (auto simp: transact_def split: sum.splits)

lemma transact_cases:
  "(\<exists>e. body w = Inl e \<and> transact body w = (Inl e, w))
   \<or> (\<exists>r w'. body w = Inr (r, w') \<and> transact body w = (Inr r, w'))"
  by (cases "body w") (auto simp: transact_def)

section \<open>What a transaction keeps\<close>

lemma createProposal_keeps:
  assumes "createProposal sender now r a d w = Inr (n, w')" "i < proposalCount (fst w)"
  shows "i < proposalCount (fst w') \<and> proposals (fst w') i = proposals (fst w) i"
  using assms
  by (auto simp: createProposal_def Let_def split: if_splits sum.splits dest: checked_succ_less)

lemma vote_keeps:
  assumes "vote sender j s w = Inr (u, w')"
  shows "proposalCount (fst w') = proposalCount (fst w)
     \<and> (executed (proposals (fst w') i) = executed (proposals (fst w) i))
     \<and> (hasVoted (proposals (fst w) i) a \<longrightarrow> hasVoted (proposals (fst w') i) a)"
  using assms
  by (auto simp: vote_def Let_def split: if_splits sum.splits)

lemma executeProposal_keeps:
  assumes "executeProposal tok sender j w = Inr (u, w')"
  shows "proposalCount (fst w') = proposalCount (fst w)
     \<and> (executed (proposals (fst w) i) \<longrightarrow> executed (proposals (fst w') i))
     \<and> (hasVoted (proposals (fst w') i) = hasVoted (proposals (fst w) i))"
  using assms
  by (auto simp: executeProposal_def Let_def split: if_splits sum.splits option.splits)

lemma autoExecute_keeps:
  assumes "autoExecute tok sender j w = Inr (u, w')"
  shows "proposalCount (fst w') = proposalCount (fst w)
     \<and> (executed (proposals (fst w) i) \<longrightarrow> executed (proposals (fst w') i))
     \<and> (hasVoted (proposals (fst w') i) = hasVoted (proposals (fst w) i))"
  using assms
  by (auto simp: autoExecute_def Let_def split: if_splits sum.splits option.splits)

lemma other_keeps:
  "addMember sender m w = Inr (u, w') \<Longrightarrow>
     proposalCount (fst w') = proposalCount (fst w) \<and> proposals (fst w') = proposals (fst w)"
  "removeMember sender m w = Inr (u, w') \<Longrightarrow>
     proposalCount (fst w') = proposalCount (fst w) \<and> proposals (fst w') = proposals (fst w)"
  "deposit tok sender v w = Inr (u, w') \<Longrightarrow>
     proposalCount (fst w') = proposalCount (fst w) \<and> proposals (fst w') = proposals (fst w)"
  "setAIOracle sender m w = Inr (u, w') \<Longrightarrow>
     proposalCount (fst w') = proposalCount (fst w) \<and> proposals (fst w') = proposals (fst w)"
  by (auto simp: addMember_def removeMember_def deposit_def setAIOracle_def Let_def
      split: if_splits sum.splits option.splits)

lemma perform_latched: "latched i V x w \<Longrightarrow> latched i V x (snd (perform tok t w))"
proof -
  assume s: "latched i V x w"
  obtain sender now c where t: "t = (sender, now, c)" by (cases t) auto
  show ?thesis
  proof (cases c)
    case (AddMember m)
    with s t transact_cases [of "addMember sender m" w] show ?thesis
      by (auto simp: latched_def dest!: other_keeps(1))
  next
    case (RemoveMember m)
    with s t transact_cases [of "removeMember sender m" w] show ?thesis
      by (auto simp: latched_def dest!: other_keeps(2))
  next
    case (Deposit v)
    with s t transact_cases [of "deposit tok sender v" w] show ?thesis
      by (auto simp: latched_def dest!: other_keeps(3))
  next
    case (CreateProposal r a d)
    with s t transact_cases [of "createProposal sender now r a d" w] show ?thesis
      by (auto simp: latched_def drop_result_def dest!: createProposal_keeps)
  next
    case (Vote j sp)
    with s t transact_cases [of "vote sender j sp" w] vote_keeps [of sender j sp w _ _ i]
    show ?thesis
      by (auto simp: latched_def)
  next
    case (ExecuteProposal j)
    with s t transact_cases [of "executeProposal tok sender j" w]
      executeProposal_keeps [of tok sender j w _ _ i]
    show ?thesis
      by (auto simp: latched_def)
  next
    case (AutoExecute j)
    with s t transact_cases [of "autoExecute tok sender j" w]
      autoExecute_keeps [of tok sender j w _ _ i]
    show ?thesis
      by (auto simp: latched_def)
  next
    case (SetAIOracle a)
    with s t transact_cases [of "setAIOracle sender a" w] show ?thesis
      by (auto simp: latched_def dest!: other_keeps(4))
  next
    case (TokenActivity f)
    with s t show ?thesis by (simp add: latched_def)
  qed
qed

lemma run_latched: "latched i V x w \<Longrightarrow> latched i V x (run tok w ts)"
proof (induction ts arbitrary: w)
  case Nil
  then show ?case by simp
next
  case (Cons t ts)
  from Cons.prems have "latched i V x (snd (perform tok t w))"
    by (rule perform_latched)
  then have "latched i V x (run tok (snd (perform tok t w)) ts)"
    by (rule Cons.IH)
  then show ?case by simp
qed


lemma constructor_fresh: "constructor this tk own = Inr l \<Longrightarrow> fresh_slots (l, ts)"
  by (auto simp: constructor_def fresh_slots_def split: if_splits)

lemma createProposal_fresh:
  assumes "createProposal sender now r a d w = Inr (n, w')" "fresh_slots w"
  shows "fresh_slots w'"
  using assms
  by (auto simp: createProposal_def Let_def fresh_slots_def split: if_splits sum.splits
      dest: checked_succ_le)

lemma vote_fresh:
  assumes "vote sender j s w = Inr (u, w')" "fresh_slots w"
  shows "fresh_slots w'"
  using assms
  by (auto simp: vote_def Let_def fresh_slots_def split: if_splits sum.splits)

lemma executeProposal_fresh:
  assumes "executeProposal tok sender j w = Inr (u, w')" "fresh_slots w"
  shows "fresh_slots w'"
  using assms
  by (auto simp: executeProposal_def Let_def fresh_slots_def
      split: if_splits sum.splits option.splits)

lemma autoExecute_fresh:
  assumes "autoExecute tok sender j w = Inr (u, w')" "fresh_slots w"
  shows "fresh_slots w'"
  using assms
  by (auto simp: autoExecute_def Let_def fresh_slots_def
      split: if_splits sum.splits option.splits)

lemma perform_fresh: "fresh_slots w \<Longrightarrow> fresh_slots (snd (perform tok t w))"
proof -
  assume s: "fresh_slots w"
  obtain sender now c where t: "t = (sender, now, c)" by (cases t) auto
  show ?thesis
  proof (cases c)
    case (AddMember m)
    with s t transact_cases [of "addMember sender m" w] show ?thesis
      by (auto simp: fresh_slots_def dest!: other_keeps(1))
  next
    case (RemoveMember m)
    with s t transact_cases [of "removeMember sender m" w] show ?thesis
      by (auto simp: fresh_slots_def dest!: other_keeps(2))
  next
    case (Deposit v)
    with s t transact_cases [of "deposit tok sender v" w] show ?thesis
      by (auto simp: fresh_slots_def dest!: other_keeps(3))
  next
    case (CreateProposal r a d)
    with s t transact_cases [of "createProposal sender now r a d" w] show ?thesis
      by (auto simp: drop_result_def dest: createProposal_fresh)
  next
    case (Vote j sp)
    with s t transact_cases [of "vote sender j sp" w] show ?thesis
      by (auto dest: vote_fresh)
  next
    case (ExecuteProposal j)
    with s t transact_cases [of "executeProposal tok sender j" w] show ?thesis
      by (auto dest: executeProposal_fresh)
  next
    case (AutoExecute j)
    with s t transact_cases [of "autoExecute tok sender j" w] show ?thesis
      by (auto dest: autoExecute_fresh)
  next
    case (SetAIOracle a)
    with s t transact_cases [of "setAIOracle sender a" w] show ?thesis
      by (auto simp: fresh_slots_def dest!: other_keeps(4))
  next
    case (TokenActivity f)
    with s t show ?thesis by (simp add: fresh_slots_def)
  qed
qed

lemma run_fresh: "fresh_slots w \<Longrightarrow> fresh_slots (run tok w ts)"
proof (induction ts arbitrary: w)
  case Nil
  then show ?case by simp
next
  case (Cons t ts)
  from Cons.prems have "fresh_slots (snd (perform tok t w))" by (rule perform_fresh)
  then have "fresh_slots (run tok (snd (perform tok t w)) ts)" by (rule Cons.IH)
  then show ?case by simp
qed

lemma perform_members: "\<exists>ys. members (fst (snd (perform tok t w))) = members (fst w) @ ys"
proof -
  obtain sender now c where t: "t = (sender, now, c)" by (cases t) auto
  show ?thesis
  proof (cases c)
    case (AddMember m)
    with t show ?thesis
      by (auto simp: transact_def addMember_def Let_def split: sum.splits)
  next
    case (RemoveMember m)
    with t show ?thesis
      by (auto simp: transact_def removeMember_def Let_def split: sum.splits)
  next
    case (Deposit v)
    with t show ?thesis
      by (auto simp: transact_def deposit_def Let_def split: sum.splits option.splits)
  next
    case (CreateProposal r a d)
    with t show ?thesis
      by (auto simp: transact_def drop_result_def createProposal_def Let_def split: sum.splits)
  next
    case (Vote j sp)
    with t show ?thesis
      by (auto simp: transact_def vote_def Let_def split: sum.splits)
  next
    case (ExecuteProposal j)
    with t show ?thesis
      by (auto simp: transact_def executeProposal_def Let_def split: sum.splits option.splits)
  next
    case (AutoExecute j)
    with t show ?thesis
      by (auto simp: transact_def autoExecute_def Let_def split: sum.splits option.splits)
  next
    case (SetAIOracle a)
    with t show ?thesis
      by (auto simp: transact_def setAIOracle_def Let_def)
  next
    case (TokenActivity f)
    with t show ?thesis by simp
  qed
qed

lemma run_members: "\<exists>ys. members (fst (run tok w ts)) = members (fst w) @ ys"
proof (induction ts arbitrary: w)
  case Nil
  then show ?case by simp
next
  case (Cons t ts)
  obtain ys where "members (fst (snd (perform tok t w))) = members (fst w) @ ys"
    using perform_members by blast
  moreover obtain zs where
    "members (fst (run tok (snd (perform tok t w)) ts)) = members (fst (snd (perform tok t w))) @ zs"
    using Cons.IH by blast
  ultimately show ?case by simp
qed


section \<open>Executions and votes are final\<close>

lemma executed_blocks:
  assumes "latched i V True w"
  shows "transact (executeProposal tok sender i) w = (Inl ProposalAlreadyExecuted, w)"
    and "sender = aiOracle (fst w) \<Longrightarrow>
           transact (autoExecute tok sender i) w = (Inl ProposalAlreadyExecuted, w)"
    and "sender \<noteq> aiOracle (fst w) \<Longrightarrow>
           transact (autoExecute tok sender i) w = (Inl UnauthorizedAIExecution, w)"
  using assms
  by (simp_all add: latched_def transact_def executeProposal_def autoExecute_def Let_def not_le)

lemma execution_latches:
  assumes "is_execution_of i t" "perform tok t w = (Inr (), w')"
  shows "latched i {} True w'"
proof -
  obtain sender now c where t: "t = (sender, now, c)" by (cases t) auto
  from assms(1) t consider "c = ExecuteProposal i" | "c = AutoExecute i"
    by (cases c) auto
  then show ?thesis
  proof cases
    case 1
    with assms(2) t have "executeProposal tok sender i w = Inr ((), w')"
      using transact_cases [of "executeProposal tok sender i" w] by auto
    then show ?thesis
      by (auto simp: latched_def executeProposal_def Let_def not_le
          split: if_splits sum.splits option.splits)
  next
    case 2
    with assms(2) t have "autoExecute tok sender i w = Inr ((), w')"
      using transact_cases [of "autoExecute tok sender i" w] by auto
    then show ?thesis
      by (auto simp: latched_def autoExecute_def Let_def not_le
          split: if_splits sum.splits option.splits)
  qed
qed

lemma latched_attempt_fails:
  assumes "latched i V True w" "is_execution_of i t"
  shows "fst (perform tok t w) \<noteq> Inr ()"
proof -
  obtain sender now c where t: "t = (sender, now, c)" by (cases t) auto
  from assms(2) t consider "c = ExecuteProposal i" | "c = AutoExecute i"
    by (cases c) auto
  then show ?thesis
  proof cases
    case 1
    with t executed_blocks(1) [OF assms(1), of tok sender] show ?thesis by simp
  next
    case 2
    with t executed_blocks(2,3) [OF assms(1), of sender tok] show ?thesis
      by (cases "sender = aiOracle (fst w)") simp_all
  qed
qed

lemma latched_no_executions: "latched i V True w \<Longrightarrow> executions tok i w ts = 0"
proof (induction ts arbitrary: w)
  case Nil
  then show ?case by simp
next
  case (Cons t ts)
  from Cons.prems have "latched i V True (snd (perform tok t w))"
    by (rule perform_latched)
  then have "executions tok i (snd (perform tok t w)) ts = 0"
    by (rule Cons.IH)
  moreover have "\<not> (is_execution_of i t \<and> fst (perform tok t w) = Inr ())"
    using latched_attempt_fails [OF Cons.prems] by blast
  ultimately show ?case by simp
qed

lemma executions_le_1: "executions tok i w ts \<le> 1"
proof (induction ts arbitrary: w)
  case Nil
  then show ?case by simp
next
  case (Cons t ts)
  show ?case
  proof (cases "is_execution_of i t \<and> fst (perform tok t w) = Inr ()")
    case True
    then have "perform tok t w = (Inr (), snd (perform tok t w))"
      by (metis prod.collapse)
    with True have "latched i {} True (snd (perform tok t w))"
      using execution_latches by blast
    then have "executions tok i (snd (perform tok t w)) ts = 0"
      by (rule latched_no_executions)
    with True show ?thesis by simp
  next
    case False
    with Cons.IH [of "snd (perform tok t w)"] show ?thesis by auto
  qed
qed

lemma vote_latches:
  assumes "perform tok (a, now, Vote i s) w = (Inr (), w1)"
  shows "latched i {a} False w1"
proof -
  from assms have "vote a i s w = Inr ((), w1)"
    using transact_cases [of "vote a i s" w] by auto
  then show ?thesis
    by (auto simp: latched_def vote_def Let_def not_le split: if_splits sum.splits)
qed

lemma voted_blocks:
  assumes "latched i {a} x w"
  shows "\<exists>e. transact (vote a i s) w = (Inl e, w)"
    and "isMember (fst w) a \<Longrightarrow> \<not> executed (proposals (fst w) i) \<Longrightarrow>
           transact (vote a i s) w = (Inl AlreadyVoted, w)"
  using assms
  by (simp_all add: latched_def transact_def vote_def Let_def not_le)

section \<open>The storage at the external call\<close>

lemma executeProposal_at_call:
  assumes "i < proposalCount (fst w)" "\<not> executed (proposals (fst w) i)"
    "unat (memberCount (fst w)) div 2 + 1 \<le> unat (votesFor (proposals (fst w) i))"
    "amount (proposals (fst w) i) \<le> balanceOf tok (snd w) (self (fst w))"
  shows "executeProposal tok sender i w =
    (case transfer tok (mark_executed i (fst w)) (snd w) (self (fst w))
            (recipient (proposals (fst w) i)) (amount (proposals (fst w) i)) of
       None \<Rightarrow> Inl SafeERC20FailedOperation
     | Some ts \<Rightarrow> Inr ((), (mark_executed i (fst w))
                  \<lparr>events := events (fst w) @ [ProposalExecuted i sender False]\<rparr>, ts))"
proof -
  from assms(3) have "\<not> votesFor (proposals (fst w) i) < memberCount (fst w) div 2 + 1"
    by (simp add: word_less_nat_alt unat_required)
  with assms show ?thesis
    by (simp add: executeProposal_def Let_def checked_add_half not_le not_less mark_executed_def
        split: option.splits)
qed

lemma autoExecute_at_call:
  assumes "sender = aiOracle (fst w)" "i < proposalCount (fst w)"
    "\<not> executed (proposals (fst w) i)"
    "amount (proposals (fst w) i) \<le> balanceOf tok (snd w) (self (fst w))"
  shows "autoExecute tok sender i w =
    (case transfer tok (mark_executed i (fst w)) (snd w) (self (fst w))
            (recipient (proposals (fst w) i)) (amount (proposals (fst w) i)) of
       None \<Rightarrow> Inl SafeERC20FailedOperation
     | Some ts \<Rightarrow> Inr ((), (mark_executed i (fst w))
                  \<lparr>events := events (fst w) @ [ProposalExecuted i sender True]\<rparr>, ts))"
  using assms
  by (simp add: autoExecute_def Let_def not_le not_less mark_executed_def split: option.splits)

lemma call_sees_flag:
  assumes "same_when_executed i tok tok'"
  shows "executeProposal tok sender i w = executeProposal tok' sender i w"
    and "autoExecute tok sender i w = autoExecute tok' sender i w"
proof -
  from assms have b: "balanceOf tok = balanceOf tok'"
    and t: "\<And>l ts c r v. executed (proposals l i) \<Longrightarrow>
              transfer tok l ts c r v = transfer tok' l ts c r v"
    by (auto simp: same_when_executed_def)
  show "executeProposal tok sender i w = executeProposal tok' sender i w"
    by (simp add: executeProposal_def Let_def b t cong: if_cong sum.case_cong)
  show "autoExecute tok sender i w = autoExecute tok' sender i w"
    by (simp add: autoExecute_def Let_def b t cong: if_cong sum.case_cong)
qed

section \<open>Creating proposals and changing membership\<close>

lemma createProposal_succeeds:
  assumes "isMember (fst w) a" "r \<noteq> 0" "v \<noteq> 0" "unat (proposalCount (fst w)) + 1 < 2 ^ 256"
  shows "createProposal a now r v d w =
     Inr (proposalCount (fst w),
          (fst w)\<lparr>proposalCount := proposalCount (fst w) + 1,
                  proposals := (proposals (fst w))(proposalCount (fst w) :=
                     (proposals (fst w) (proposalCount (fst w)))
                       \<lparr>id := proposalCount (fst w), proposer := a, recipient := r,
                        amount := v, description := d, createdAt := now\<rparr>),
                  events := events (fst w) @ [ProposalCreated (proposalCount (fst w)) a r v d]\<rparr>,
          snd w)"
  using assms by (simp add: createProposal_def Let_def checked_add_ok)

lemma createProposal_id:
  assumes "createProposal a now r v d w = Inr (n, w')"
  shows "n = proposalCount (fst w) \<and> latched n {} False w'"
  using assms
  by (auto simp: createProposal_def Let_def latched_def split: if_splits sum.splits
      dest!: checked_add_Inr simp: word_less_nat_alt)

lemma removeMember_effect:
  assumes "removeMember s m w = Inr ((), w')"
  shows "members (fst w') = members (fst w) \<and> \<not> isMember (fst w') m
    \<and> unat (memberCount (fst w')) + 1 = unat (memberCount (fst w))"
  using assms
  by (auto simp: removeMember_def Let_def split: if_splits sum.splits dest!: checked_sub_Inr)

lemma addMember_effect:
  assumes "addMember s m w = Inr ((), w')"
  shows "members (fst w') = members (fst w) @ [m] \<and> isMember (fst w') m
    \<and> unat (memberCount (fst w')) = unat (memberCount (fst w)) + 1"
  using assms
  by (auto simp: addMember_def Let_def split: if_splits sum.splits dest!: checked_add_Inr)

section \<open>Evaluating the example history\<close>

lemmas contract_defs = transact_def addMember_def removeMember_def deposit_def
  createProposal_def vote_def executeProposal_def autoExecute_def setAIOracle_def
  checked_add_def checked_sub_def drop_result_def Let_def empty_proposal_def

lemmas example_defs = pausable_token_def move_def deployed_def funded_def joining_def
  joined_def pending_def one_vote_def approved_def


section \<open>The claims\<close>

text \<open>
  C1. For every proposal id at most one execution ever succeeds. Whatever the history,
  the number of successful \<open>executeProposal\<close> and \<open>autoExecute\<close> transactions for one id
  is at most one. Once one of them has succeeded, the executed flag stays set through every
  later history, every later \<open>executeProposal\<close> on the id and every later
  \<open>autoExecute\<close> on it by the oracle fails with \<open>ProposalAlreadyExecuted\<close>, and the
  state after the failed call is the state before it. (An \<open>autoExecute\<close> by anyone
  else fails with \<open>UnauthorizedAIExecution\<close>, the first check of that function, and
  changes nothing either.) Two racing calls are two transactions in some order: the
  second one meets the flag.
\<close>

theorem at_most_one_execution:
  "executions tok i w txs \<le> 1
   \<and> (is_execution_of i t0 \<and> perform tok t0 w = (Inr (), w1) \<and> w2 = run tok w1 ts \<longrightarrow>
        executed (proposals (fst w2) i)
        \<and> perform tok (sender, now, ExecuteProposal i) w2 = (Inl ProposalAlreadyExecuted, w2)
        \<and> (sender = aiOracle (fst w2) \<longrightarrow>
             perform tok (sender, now, AutoExecute i) w2 = (Inl ProposalAlreadyExecuted, w2))
        \<and> (sender \<noteq> aiOracle (fst w2) \<longrightarrow>
             perform tok (sender, now, AutoExecute i) w2 = (Inl UnauthorizedAIExecution, w2)))"
proof (intro conjI impI)
  show "executions tok i w txs \<le> 1" by (rule executions_le_1)
next
  assume a: "is_execution_of i t0 \<and> perform tok t0 w = (Inr (), w1) \<and> w2 = run tok w1 ts"
  then have "latched i {} True w1" using execution_latches by blast
  then have "latched i {} True (run tok w1 ts)" by (rule run_latched)
  with a have s: "latched i {} True w2" by simp
  from s show "executed (proposals (fst w2) i)" by (simp add: latched_def)
  from s show "perform tok (sender, now, ExecuteProposal i) w2 = (Inl ProposalAlreadyExecuted, w2)"
    by (simp add: executed_blocks(1))
  {
    assume "sender = aiOracle (fst w2)"
    with s show "perform tok (sender, now, AutoExecute i) w2 = (Inl ProposalAlreadyExecuted, w2)"
      by (simp add: executed_blocks(2))
  }
  {
    assume "sender \<noteq> aiOracle (fst w2)"
    with s show "perform tok (sender, now, AutoExecute i) w2 = (Inl UnauthorizedAIExecution, w2)"
      by (simp add: executed_blocks(3))
  }
qed

text \<open>
  On the example: the approved proposal 0 is executed by member 3, then the oracle's
  \<open>autoExecute\<close> of it is refused, and the history holds one execution.
\<close>

theorem at_most_one_execution_witness:
  "executions pausable_token 0 approved [(3, 5, ExecuteProposal 0), (7, 6, AutoExecute 0)] = 1
   \<and> fst (perform pausable_token (3, 5, ExecuteProposal 0) approved) = Inr ()
   \<and> perform pausable_token (7, 6, AutoExecute 0) paid = (Inl ProposalAlreadyExecuted, paid)
   \<and> perform pausable_token (2, 6, ExecuteProposal 0) paid = (Inl ProposalAlreadyExecuted, paid)"
  using at_most_one_execution [of pausable_token 0 approved
      "[(3, 5, ExecuteProposal 0), (7, 6, AutoExecute 0)]" "(3, 5, ExecuteProposal 0)"
      paid paid "[]" 7 6]
    at_most_one_execution [of pausable_token 0 approved
      "[(3, 5, ExecuteProposal 0), (7, 6, AutoExecute 0)]" "(3, 5, ExecuteProposal 0)"
      paid paid "[]" 2 6]
  by (simp add: contract_defs example_defs paid_def)

text \<open>
  C2. \<open>executeProposal\<close> succeeds only if the proposal's \<open>votesFor\<close> is at least
  \<open>floor(memberCount / 2) + 1\<close>, with \<open>memberCount\<close> read from the storage the call
  runs on (the proposal keeps no member count of its own). For an allocated id that is not
  yet executed, a \<open>votesFor\<close> below that threshold, so also one below it, makes the call
  fail with \<open>ProposalNotApproved\<close> and leaves the state as it was.
\<close>

theorem executeProposal_majority:
  "(fst (transact (executeProposal tok sender proposalId) w) = Inr () \<longrightarrow>
      unat (memberCount (fst w)) div 2 + 1 \<le> unat (votesFor (proposals (fst w) proposalId)))
   \<and> (proposalId < proposalCount (fst w) \<and> \<not> executed (proposals (fst w) proposalId)
        \<and> unat (votesFor (proposals (fst w) proposalId)) < unat (memberCount (fst w)) div 2 + 1 \<longrightarrow>
      transact (executeProposal tok sender proposalId) w = (Inl ProposalNotApproved, w))"
proof (intro conjI impI)
  assume "fst (transact (executeProposal tok sender proposalId) w) = Inr ()"
  then obtain w' where ok: "executeProposal tok sender proposalId w = Inr ((), w')"
    by (auto simp: transact_Inr_iff)
  then have "\<not> votesFor (proposals (fst w) proposalId) < memberCount (fst w) div 2 + 1"
    by (auto simp: executeProposal_def Let_def checked_add_half split: if_splits)
  then show "unat (memberCount (fst w)) div 2 + 1 \<le> unat (votesFor (proposals (fst w) proposalId))"
    by (simp add: word_less_nat_alt unat_required)
next
  assume a: "proposalId < proposalCount (fst w) \<and> \<not> executed (proposals (fst w) proposalId)
        \<and> unat (votesFor (proposals (fst w) proposalId)) < unat (memberCount (fst w)) div 2 + 1"
  then have "votesFor (proposals (fst w) proposalId) < memberCount (fst w) div 2 + 1"
    by (simp add: word_less_nat_alt unat_required)
  with a have "executeProposal tok sender proposalId w = Inl ProposalNotApproved"
    by (simp add: executeProposal_def Let_def checked_add_half not_le)
  then show "transact (executeProposal tok sender proposalId) w = (Inl ProposalNotApproved, w)"
    by (rule transact_Inl)
qed

text \<open>
  On the example, with three members (threshold 2): one vote is refused, two votes
  execute. After two more members have joined (threshold 3) the same two votes are
  refused.
\<close>

theorem executeProposal_majority_witness:
  "transact (executeProposal pausable_token 3 0) one_vote = (Inl ProposalNotApproved, one_vote)
   \<and> fst (transact (executeProposal pausable_token 3 0) approved) = Inr ()
   \<and> unat (memberCount (fst approved)) div 2 + 1 \<le> unat (votesFor (proposals (fst approved) 0))
   \<and> votesFor (proposals (fst grown) 0) = 2 \<and> memberCount (fst grown) = 5
   \<and> transact (executeProposal pausable_token 3 0) grown = (Inl ProposalNotApproved, grown)"
  using executeProposal_majority [of pausable_token 3 0 one_vote]
    executeProposal_majority [of pausable_token 3 0 approved]
    executeProposal_majority [of pausable_token 3 0 grown]
  by (simp add: contract_defs example_defs grown_def)

text \<open>
  C4. \<open>autoExecute\<close> fails with \<open>UnauthorizedAIExecution\<close> for every caller other
  than the registered oracle. Called by the oracle it checks no votes: it never fails with
  \<open>ProposalNotApproved\<close> and, whatever the tallies and the member count are, it
  succeeds when the id is allocated, the proposal is not executed, the custody balance
  covers the amount and the token's transfer goes through; it then marks the proposal
  executed, moves the funds and emits \<open>ProposalExecuted\<close> with \<open>isAI = true\<close>.
\<close>

theorem autoExecute_oracle_only:
  "(sender \<noteq> aiOracle (fst w) \<longrightarrow>
      transact (autoExecute tok sender i) w = (Inl UnauthorizedAIExecution, w))
   \<and> (sender = aiOracle (fst w) \<and> i < proposalCount (fst w) \<and> \<not> executed (proposals (fst w) i)
        \<and> amount (proposals (fst w) i) \<le> balanceOf tok (snd w) (self (fst w))
        \<and> transfer tok (mark_executed i (fst w)) (snd w) (self (fst w))
             (recipient (proposals (fst w) i)) (amount (proposals (fst w) i)) = Some ts \<longrightarrow>
      transact (autoExecute tok sender i) w =
        (Inr (), (mark_executed i (fst w))
                   \<lparr>events := events (fst w) @ [ProposalExecuted i sender True]\<rparr>, ts))
   \<and> fst (transact (autoExecute tok sender i) w) \<noteq> Inl ProposalNotApproved"
  by (simp add: transact_def autoExecute_def Let_def not_le not_less mark_executed_def
      split: option.splits)

text \<open>
  On the example, before anyone has voted: member 2 is refused, the oracle executes the
  proposal with zero votes and 100 reaches the recipient.
\<close>

theorem autoExecute_oracle_only_witness:
  "transact (autoExecute pausable_token 2 0) pending = (Inl UnauthorizedAIExecution, pending)
   \<and> votesFor (proposals (fst pending) 0) = 0
   \<and> fst (transact (autoExecute pausable_token 7 0) pending) = Inr ()
   \<and> executed (proposals (fst (snd (transact (autoExecute pausable_token 7 0) pending))) 0)
   \<and> balances (snd (snd (transact (autoExecute pausable_token 7 0) pending))) 9 = 100"
  using autoExecute_oracle_only [where sender = 2 and w = pending and tok = pausable_token
      and i = 0]
    autoExecute_oracle_only [where sender = 7 and w = pending and tok = pausable_token
      and i = 0 and ts = "(snd pending)\<lparr>balances := move (balances (snd pending)) 100 9 100\<rparr>"]
  by (simp add: contract_defs example_defs mark_executed_def)

text \<open>
  C5. After an identity has voted on a proposal, no later vote of that identity on that
  proposal succeeds, whatever the support value and whatever happened in between; while
  the identity is a member and the proposal is not executed the error is
  \<open>AlreadyVoted\<close>. A vote by a member on an allocated proposal whose executed flag is
  set fails with \<open>ProposalAlreadyExecuted\<close>. A failing vote leaves the whole state,
  so the tallies and the has-voted set, unchanged.
\<close>

theorem vote_once:
  "(perform tok (a, now, Vote i s) w = (Inr (), w1) \<and> w2 = run tok w1 ts \<longrightarrow>
      (\<exists>e. transact (vote a i s') w2 = (Inl e, w2))
      \<and> (isMember (fst w2) a \<and> \<not> executed (proposals (fst w2) i) \<longrightarrow>
            transact (vote a i s') w2 = (Inl AlreadyVoted, w2)))
   \<and> (isMember (fst w) a \<and> i < proposalCount (fst w) \<and> \<not> executed (proposals (fst w) i)
        \<and> hasVoted (proposals (fst w) i) a \<longrightarrow>
      transact (vote a i s) w = (Inl AlreadyVoted, w))
   \<and> (isMember (fst w) a \<and> i < proposalCount (fst w) \<and> executed (proposals (fst w) i) \<longrightarrow>
      transact (vote a i s) w = (Inl ProposalAlreadyExecuted, w))
   \<and> (fst (transact (vote a i s) w) = Inl e \<longrightarrow> snd (transact (vote a i s) w) = w)"
proof (intro conjI impI)
  assume h: "perform tok (a, now, Vote i s) w = (Inr (), w1) \<and> w2 = run tok w1 ts"
  then have "latched i {a} False w1" using vote_latches by blast
  then have "latched i {a} False (run tok w1 ts)" by (rule run_latched)
  with h have l: "latched i {a} False w2" by simp
  then show "\<exists>e. transact (vote a i s') w2 = (Inl e, w2)" by (rule voted_blocks(1))
  {
    assume "isMember (fst w2) a \<and> \<not> executed (proposals (fst w2) i)"
    with l show "transact (vote a i s') w2 = (Inl AlreadyVoted, w2)"
      by (simp add: voted_blocks(2))
  }
next
  assume "isMember (fst w) a \<and> i < proposalCount (fst w) \<and> \<not> executed (proposals (fst w) i)
        \<and> hasVoted (proposals (fst w) i) a"
  then show "transact (vote a i s) w = (Inl AlreadyVoted, w)"
    by (simp add: transact_def vote_def Let_def not_le)
next
  assume "isMember (fst w) a \<and> i < proposalCount (fst w) \<and> executed (proposals (fst w) i)"
  then show "transact (vote a i s) w = (Inl ProposalAlreadyExecuted, w)"
    by (simp add: transact_def vote_def Let_def not_le)
next
  assume "fst (transact (vote a i s) w) = Inl e"
  then show "snd (transact (vote a i s) w) = w" by (rule transact_fails_unchanged)
qed

text \<open>
  On the example: member 2 has voted for proposal 0; a second vote, for or against, is
  refused with \<open>AlreadyVoted\<close>, also after member 3 has voted. Once the proposal has
  been executed, member 4, who never voted, is refused with
  \<open>ProposalAlreadyExecuted\<close>.
\<close>

theorem vote_once_witness:
  "perform pausable_token (2, 3, Vote 0 True) pending = (Inr (), one_vote)
   \<and> transact (vote 2 0 False) one_vote = (Inl AlreadyVoted, one_vote)
   \<and> transact (vote 2 0 True) approved = (Inl AlreadyVoted, approved)
   \<and> transact (vote 4 0 True) paid = (Inl ProposalAlreadyExecuted, paid)"
  using vote_once [where tok = pausable_token and a = 2 and now = 3 and i = 0 and s = True
      and w = pending and ?w1.0 = one_vote and ?w2.0 = one_vote and ts = "[]" and s' = False]
    vote_once [where tok = pausable_token and a = 2 and now = 3 and i = 0 and s = True
      and w = pending and ?w1.0 = one_vote and ?w2.0 = approved
      and ts = "[(3, 4, Vote 0 True)]" and s' = True]
    vote_once [where a = 4 and w = paid and i = 0 and s = True]
  by (simp add: contract_defs example_defs paid_def)


text \<open>
  C6. \<open>deposit\<close> fails with \<open>NotMember\<close> for a caller who is not a member and with
  \<open>InvalidAmount\<close> for a member's zero amount. For a member and a non-zero amount,
  when the token's \<open>transferFrom\<close> goes through, \<open>deposits[caller]\<close> and
  \<open>totalDeposits\<close> both grow by exactly the amount (the two counters are \<open>uint256\<close>
  with checked addition, so the sums must fit). When \<open>transferFrom\<close> fails the whole
  call fails and the state, so both counters, is unchanged. Every successful deposit
  adds exactly the amount to both counters and touches no other identity's deposits.
\<close>

theorem deposit_effects:
  "(\<not> isMember (fst w) a \<longrightarrow> transact (deposit tok a v) w = (Inl NotMember, w))
   \<and> (isMember (fst w) a \<and> v = 0 \<longrightarrow> transact (deposit tok a v) w = (Inl InvalidAmount, w))
   \<and> (isMember (fst w) a \<and> v \<noteq> 0
        \<and> unat (deposits (fst w) a) + unat v < 2 ^ 256
        \<and> unat (totalDeposits (fst w)) + unat v < 2 ^ 256
        \<and> transferFrom tok (credit a v (fst w)) (snd w) (self (fst w)) a (self (fst w)) v = Some ts \<longrightarrow>
      transact (deposit tok a v) w =
        (Inr (), (credit a v (fst w))\<lparr>events := events (fst w) @ [Deposited a v]\<rparr>, ts))
   \<and> (transferFrom tok (credit a v (fst w)) (snd w) (self (fst w)) a (self (fst w)) v = None \<longrightarrow>
      (\<exists>e. transact (deposit tok a v) w = (Inl e, w)))
   \<and> (transact (deposit tok a v) w = (Inr (), w') \<longrightarrow>
      isMember (fst w) a \<and> v \<noteq> 0
      \<and> unat (deposits (fst w') a) = unat (deposits (fst w) a) + unat v
      \<and> unat (totalDeposits (fst w')) = unat (totalDeposits (fst w)) + unat v
      \<and> (\<forall>b. b \<noteq> a \<longrightarrow> deposits (fst w') b = deposits (fst w) b))"
proof (intro conjI impI)
  assume "\<not> isMember (fst w) a"
  then show "transact (deposit tok a v) w = (Inl NotMember, w)"
    by (simp add: transact_def deposit_def Let_def)
next
  assume "isMember (fst w) a \<and> v = 0"
  then show "transact (deposit tok a v) w = (Inl InvalidAmount, w)"
    by (simp add: transact_def deposit_def Let_def)
next
  assume "isMember (fst w) a \<and> v \<noteq> 0
        \<and> unat (deposits (fst w) a) + unat v < 2 ^ 256
        \<and> unat (totalDeposits (fst w)) + unat v < 2 ^ 256
        \<and> transferFrom tok (credit a v (fst w)) (snd w) (self (fst w)) a (self (fst w)) v = Some ts"
  then show "transact (deposit tok a v) w =
        (Inr (), (credit a v (fst w))\<lparr>events := events (fst w) @ [Deposited a v]\<rparr>, ts)"
    by (simp add: transact_def deposit_def Let_def checked_add_ok credit_def)
next
  assume n: "transferFrom tok (credit a v (fst w)) (snd w) (self (fst w)) a (self (fst w)) v = None"
  show "\<exists>e. transact (deposit tok a v) w = (Inl e, w)"
  proof (cases "deposit tok a v w")
    case (Inl e)
    then show ?thesis by (simp add: transact_def)
  next
    case (Inr r)
    with n show ?thesis
      by (auto simp: deposit_def Let_def credit_def split: if_splits sum.splits option.splits
          dest!: checked_add_Inr)
  qed
next
  assume "transact (deposit tok a v) w = (Inr (), w')"
  then have d: "deposit tok a v w = Inr ((), w')"
    using transact_cases [of "deposit tok a v" w] by auto
  then obtain dn tn where m: "isMember (fst w) a" "v \<noteq> 0"
    and dn: "checked_add (deposits (fst w) a) v = Inr dn"
    and tn: "checked_add (totalDeposits (fst w)) v = Inr tn"
    and l: "deposits (fst w') = (deposits (fst w))(a := dn)" "totalDeposits (fst w') = tn"
    by (auto simp: deposit_def Let_def split: if_splits sum.splits option.splits)
  from m show "isMember (fst w) a" "v \<noteq> 0" by simp_all
  from dn l show "unat (deposits (fst w') a) = unat (deposits (fst w) a) + unat v"
    by (auto dest!: checked_add_Inr)
  from tn l show "unat (totalDeposits (fst w')) = unat (totalDeposits (fst w)) + unat v"
    by (auto dest!: checked_add_Inr)
  from l show "\<forall>b. b \<noteq> a \<longrightarrow> deposits (fst w') b = deposits (fst w) b" by simp
qed

text \<open>
  On the example, after the members have joined: address 9 is no member, member 2 may not
  deposit zero, member 2 deposits the 1000 it holds, and member 3, who holds nothing,
  has its deposit of 5 rolled back.
\<close>

theorem deposit_effects_witness:
  "transact (deposit pausable_token 9 5) joined = (Inl NotMember, joined)
   \<and> transact (deposit pausable_token 2 0) joined = (Inl InvalidAmount, joined)
   \<and> fst (transact (deposit pausable_token 2 1000) joined) = Inr ()
   \<and> deposits (fst (snd (transact (deposit pausable_token 2 1000) joined))) 2 = 1000
   \<and> totalDeposits (fst (snd (transact (deposit pausable_token 2 1000) joined))) = 1000
   \<and> transact (deposit pausable_token 3 5) joined = (Inl SafeERC20FailedOperation, joined)"
  using deposit_effects [where w = joined and a = 9 and tok = pausable_token and v = 5]
    deposit_effects [where w = joined and a = 2 and tok = pausable_token and v = 0]
    deposit_effects [where w = joined and a = 2 and tok = pausable_token and v = 1000
      and ts = "(snd joined)\<lparr>balances := move (balances (snd joined)) 2 100 1000\<rparr>"
      and w' = "snd (transact (deposit pausable_token 2 1000) joined)"]
    deposit_effects [where w = joined and a = 3 and tok = pausable_token and v = 5]
  by (simp add: contract_defs example_defs credit_def)

text \<open>
  C7. When the proposal's amount exceeds the custody balance reported by the token,
  neither \<open>executeProposal\<close> nor \<open>autoExecute\<close> can succeed and the state stays as
  it was, so the executed flag is not set. The error is \<open>InsufficientTreasuryBalance\<close>
  whenever the checks that come first pass: the id is allocated and the proposal not
  executed, and the majority is reached (\<open>executeProposal\<close>) or the caller is the oracle
  (\<open>autoExecute\<close>).
\<close>

theorem insufficient_balance_reverts:
  "balanceOf tok (snd w) (self (fst w)) < amount (proposals (fst w) i) \<longrightarrow>
     (\<exists>e. transact (executeProposal tok sender i) w = (Inl e, w))
     \<and> (\<exists>e. transact (autoExecute tok sender i) w = (Inl e, w))
     \<and> (i < proposalCount (fst w) \<and> \<not> executed (proposals (fst w) i)
          \<and> unat (memberCount (fst w)) div 2 + 1 \<le> unat (votesFor (proposals (fst w) i)) \<longrightarrow>
        transact (executeProposal tok sender i) w = (Inl InsufficientTreasuryBalance, w))
     \<and> (sender = aiOracle (fst w) \<and> i < proposalCount (fst w)
          \<and> \<not> executed (proposals (fst w) i) \<longrightarrow>
        transact (autoExecute tok sender i) w = (Inl InsufficientTreasuryBalance, w))"
proof (intro impI conjI)
  assume b: "balanceOf tok (snd w) (self (fst w)) < amount (proposals (fst w) i)"
  then show "\<exists>e. transact (executeProposal tok sender i) w = (Inl e, w)"
    by (simp add: transact_def executeProposal_def Let_def checked_add_half)
  from b show "\<exists>e. transact (autoExecute tok sender i) w = (Inl e, w)"
    by (simp add: transact_def autoExecute_def Let_def)
  {
    assume g: "i < proposalCount (fst w) \<and> \<not> executed (proposals (fst w) i)
          \<and> unat (memberCount (fst w)) div 2 + 1 \<le> unat (votesFor (proposals (fst w) i))"
    then have "\<not> votesFor (proposals (fst w) i) < memberCount (fst w) div 2 + 1"
      by (simp add: word_less_nat_alt unat_required)
    with b g show "transact (executeProposal tok sender i) w = (Inl InsufficientTreasuryBalance, w)"
      by (simp add: transact_def executeProposal_def Let_def checked_add_half not_le)
  }
  {
    assume "sender = aiOracle (fst w) \<and> i < proposalCount (fst w)
          \<and> \<not> executed (proposals (fst w) i)"
    with b show "transact (autoExecute tok sender i) w = (Inl InsufficientTreasuryBalance, w)"
      by (simp add: transact_def autoExecute_def Let_def not_le)
  }
qed

text \<open>
  On the example: proposal 1 asks for 5000 while the treasury holds 1000; with two of
  three votes \<open>executeProposal\<close> fails, and so does the oracle's \<open>autoExecute\<close>.
\<close>

theorem insufficient_balance_reverts_witness:
  "balanceOf pausable_token (snd overdrawn) (self (fst overdrawn)) = 1000
   \<and> amount (proposals (fst overdrawn) 1) = 5000
   \<and> transact (executeProposal pausable_token 2 1) overdrawn
       = (Inl InsufficientTreasuryBalance, overdrawn)
   \<and> transact (autoExecute pausable_token 7 1) overdrawn
       = (Inl InsufficientTreasuryBalance, overdrawn)
   \<and> executed (proposals (fst overdrawn) 1) = False"
  using insufficient_balance_reverts [where tok = pausable_token and w = overdrawn and i = 1
      and sender = 2]
    insufficient_balance_reverts [where tok = pausable_token and w = overdrawn and i = 1
      and sender = 7]
  by (simp add: contract_defs example_defs overdrawn_def word_le_nat_alt word_less_nat_alt)

text \<open>
  C8 (amended). In both execution paths the executed flag is written before the external
  transfer is invoked: the token's \<open>transfer\<close> is called on the storage in which the
  proposal is already marked executed, so the outcome of an execution cannot depend on what
  the token would do when it sees the proposal unexecuted. When that transfer fails,
  \<open>safeTransfer\<close> reverts and the whole call is rolled back with it, the flag
  included: the call fails with \<open>SafeERC20FailedOperation\<close>, the state is the one
  before the call and the proposal can still be executed later. When the transfer goes
  through, the proposal is marked executed and the event is emitted.
\<close>

theorem flag_set_before_transfer:
  "(same_when_executed i tok tok' \<longrightarrow>
      executeProposal tok sender i w = executeProposal tok' sender i w
      \<and> autoExecute tok sender i w = autoExecute tok' sender i w)
   \<and> (i < proposalCount (fst w) \<and> \<not> executed (proposals (fst w) i)
        \<and> amount (proposals (fst w) i) \<le> balanceOf tok (snd w) (self (fst w)) \<longrightarrow>
      (unat (memberCount (fst w)) div 2 + 1 \<le> unat (votesFor (proposals (fst w) i)) \<longrightarrow>
         transact (executeProposal tok sender i) w =
           (case transfer tok (mark_executed i (fst w)) (snd w) (self (fst w))
                   (recipient (proposals (fst w) i)) (amount (proposals (fst w) i)) of
              None \<Rightarrow> (Inl SafeERC20FailedOperation, w)
            | Some ts \<Rightarrow> (Inr (), (mark_executed i (fst w))
                  \<lparr>events := events (fst w) @ [ProposalExecuted i sender False]\<rparr>, ts)))
      \<and> (sender = aiOracle (fst w) \<longrightarrow>
         transact (autoExecute tok sender i) w =
           (case transfer tok (mark_executed i (fst w)) (snd w) (self (fst w))
                   (recipient (proposals (fst w) i)) (amount (proposals (fst w) i)) of
              None \<Rightarrow> (Inl SafeERC20FailedOperation, w)
            | Some ts \<Rightarrow> (Inr (), (mark_executed i (fst w))
                  \<lparr>events := events (fst w) @ [ProposalExecuted i sender True]\<rparr>, ts))))"
proof (intro conjI impI)
  assume "same_when_executed i tok tok'"
  then show "executeProposal tok sender i w = executeProposal tok' sender i w"
    "autoExecute tok sender i w = autoExecute tok' sender i w"
    by (rule call_sees_flag)+
next
  assume g: "i < proposalCount (fst w) \<and> \<not> executed (proposals (fst w) i)
        \<and> amount (proposals (fst w) i) \<le> balanceOf tok (snd w) (self (fst w))"
  {
    assume "unat (memberCount (fst w)) div 2 + 1 \<le> unat (votesFor (proposals (fst w) i))"
    with g show "transact (executeProposal tok sender i) w =
           (case transfer tok (mark_executed i (fst w)) (snd w) (self (fst w))
                   (recipient (proposals (fst w) i)) (amount (proposals (fst w) i)) of
              None \<Rightarrow> (Inl SafeERC20FailedOperation, w)
            | Some ts \<Rightarrow> (Inr (), (mark_executed i (fst w))
                  \<lparr>events := events (fst w) @ [ProposalExecuted i sender False]\<rparr>, ts))"
      by (simp add: transact_def executeProposal_at_call split: option.splits)
  }
  {
    assume "sender = aiOracle (fst w)"
    with g show "transact (autoExecute tok sender i) w =
           (case transfer tok (mark_executed i (fst w)) (snd w) (self (fst w))
                   (recipient (proposals (fst w) i)) (amount (proposals (fst w) i)) of
              None \<Rightarrow> (Inl SafeERC20FailedOperation, w)
            | Some ts \<Rightarrow> (Inr (), (mark_executed i (fst w))
                  \<lparr>events := events (fst w) @ [ProposalExecuted i sender True]\<rparr>, ts))"
      by (simp add: transact_def autoExecute_at_call split: option.splits)
  }
qed

text \<open>
  On the example: the token that refuses to pay unless it sees proposal 0 executed pays,
  exactly as the plain token does; and with the token paused, the approved proposal's
  execution fails on either path and the state is the one before the call.
\<close>

theorem flag_set_before_transfer_witness:
  "same_when_executed 0 pausable_token (watching_token 0)
   \<and> executeProposal (watching_token 0) 3 0 approved = executeProposal pausable_token 3 0 approved
   \<and> fst (transact (executeProposal (watching_token 0) 3 0) approved) = Inr ()
   \<and> transact (executeProposal pausable_token 3 0) approved_paused
       = (Inl SafeERC20FailedOperation, approved_paused)
   \<and> transact (autoExecute pausable_token 7 0) approved_paused
       = (Inl SafeERC20FailedOperation, approved_paused)"
proof -
  have s: "same_when_executed 0 pausable_token (watching_token 0)"
    by (simp add: same_when_executed_def watching_token_def pausable_token_def)
  with flag_set_before_transfer [where i = 0 and tok = pausable_token
        and tok' = "watching_token 0" and sender = 3 and w = approved]
  have a: "executeProposal (watching_token 0) 3 0 approved
             = executeProposal pausable_token 3 0 approved"
    by simp
  have "fst (transact (executeProposal pausable_token 3 0) approved) = Inr ()"
    by (simp add: contract_defs example_defs)
  with a have e: "fst (transact (executeProposal (watching_token 0) 3 0) approved) = Inr ()"
    by (simp add: transact_def)
  have p: "transact (executeProposal pausable_token 3 0) approved_paused
             = (Inl SafeERC20FailedOperation, approved_paused)"
    using flag_set_before_transfer [where i = 0 and tok = pausable_token
        and tok' = pausable_token and sender = 3 and w = approved_paused]
    by (simp add: contract_defs example_defs approved_paused_def mark_executed_def)
  have q: "transact (autoExecute pausable_token 7 0) approved_paused
             = (Inl SafeERC20FailedOperation, approved_paused)"
    using flag_set_before_transfer [where i = 0 and tok = pausable_token
        and tok' = pausable_token and sender = 7 and w = approved_paused]
    by (simp add: contract_defs example_defs approved_paused_def mark_executed_def)
  from s a e p q show ?thesis by simp
qed

text \<open>
  The claim as stated fails: with the token paused the transfer of the approved proposal 0
  fails, and after the failed \<open>executeProposal\<close> (and after the oracle's failed
  \<open>autoExecute\<close>) the proposal is not marked executed.
\<close>

theorem failed_transfer_keeps_flag_counterexample:
  "transfer pausable_token (mark_executed 0 (fst approved_paused)) (snd approved_paused)
      (self (fst approved_paused)) (recipient (proposals (fst approved_paused) 0))
      (amount (proposals (fst approved_paused) 0)) = None
   \<and> fst (transact (executeProposal pausable_token 3 0) approved_paused)
       = Inl SafeERC20FailedOperation
   \<and> \<not> executed (proposals (fst (snd (transact (executeProposal pausable_token 3 0)
                                            approved_paused))) 0)
   \<and> fst (transact (autoExecute pausable_token 7 0) approved_paused)
       = Inl SafeERC20FailedOperation
   \<and> \<not> executed (proposals (fst (snd (transact (autoExecute pausable_token 7 0)
                                            approved_paused))) 0)"
  by (simp add: contract_defs example_defs approved_paused_def mark_executed_def)


text \<open>
  C9. \<open>createProposal\<close> fails with \<open>NotMember\<close> for a caller who is not a member,
  with \<open>InvalidRecipient\<close> for a member naming the zero address and with
  \<open>InvalidAmount\<close> for a member's zero amount. In every state the deployed contract
  can reach, a member's call with a non-zero recipient and a non-zero amount (and a
  proposal count below the largest \<open>uint256\<close>, where the checked increment would
  revert) returns the previous proposal count as the new id and raises the count by one;
  the proposal stored under the id has the caller's data, \<open>votesFor = 0\<close>,
  \<open>votesAgainst = 0\<close>, nobody marked as voter and \<open>executed = false\<close>; no other
  proposal, no deposit balance, not \<open>totalDeposits\<close> and not the token change. Ids are
  strictly increasing: a later successful call, whatever happened in between, returns a
  larger id.
\<close>

theorem createProposal_sequential:
  "(\<not> isMember (fst w) a \<longrightarrow> transact (createProposal a now r v d) w = (Inl NotMember, w))
   \<and> (isMember (fst w) a \<and> r = 0 \<longrightarrow>
        transact (createProposal a now r v d) w = (Inl InvalidRecipient, w))
   \<and> (isMember (fst w) a \<and> r \<noteq> 0 \<and> v = 0 \<longrightarrow>
        transact (createProposal a now r v d) w = (Inl InvalidAmount, w))
   \<and> (constructor this tk own = Inr l0 \<and> w = run tok (l0, ts0) txs
        \<and> isMember (fst w) a \<and> r \<noteq> 0 \<and> v \<noteq> 0 \<and> unat (proposalCount (fst w)) + 1 < 2 ^ 256 \<longrightarrow>
        (\<exists>w'. transact (createProposal a now r v d) w = (Inr (proposalCount (fst w)), w')
           \<and> unat (proposalCount (fst w')) = unat (proposalCount (fst w)) + 1
           \<and> proposals (fst w') (proposalCount (fst w))
               = new_proposal (proposalCount (fst w)) a now r v d
           \<and> (\<forall>j. j \<noteq> proposalCount (fst w) \<longrightarrow> proposals (fst w') j = proposals (fst w) j)
           \<and> deposits (fst w') = deposits (fst w)
           \<and> totalDeposits (fst w') = totalDeposits (fst w)
           \<and> snd w' = snd w))
   \<and> (transact (createProposal a now r v d) w = (Inr n, w1) \<and> w2 = run tok w1 ts
        \<and> transact (createProposal a' now' r' v' d') w2 = (Inr n', w3) \<longrightarrow>
        n = proposalCount (fst w) \<and> unat (proposalCount (fst w1)) = unat n + 1 \<and> n < n')"
proof (intro conjI impI)
  assume "\<not> isMember (fst w) a"
  then show "transact (createProposal a now r v d) w = (Inl NotMember, w)"
    by (simp add: transact_def createProposal_def Let_def)
next
  assume "isMember (fst w) a \<and> r = 0"
  then show "transact (createProposal a now r v d) w = (Inl InvalidRecipient, w)"
    by (simp add: transact_def createProposal_def Let_def)
next
  assume "isMember (fst w) a \<and> r \<noteq> 0 \<and> v = 0"
  then show "transact (createProposal a now r v d) w = (Inl InvalidAmount, w)"
    by (simp add: transact_def createProposal_def Let_def)
next
  assume h: "constructor this tk own = Inr l0 \<and> w = run tok (l0, ts0) txs
        \<and> isMember (fst w) a \<and> r \<noteq> 0 \<and> v \<noteq> 0 \<and> unat (proposalCount (fst w)) + 1 < 2 ^ 256"
  then have "constructor this tk own = Inr l0" by simp
  then have "fresh_slots (l0, ts0)" by (rule constructor_fresh)
  then have "fresh_slots (run tok (l0, ts0) txs)" by (rule run_fresh)
  with h have "fresh_slots w" by simp
  then have e: "proposals (fst w) (proposalCount (fst w)) = empty_proposal"
    by (simp add: fresh_slots_def)
  from h have m: "isMember (fst w) a" "r \<noteq> 0" "v \<noteq> 0"
    and b: "unat (proposalCount (fst w)) + 1 < 2 ^ 256"
    by blast+
  from b have lt: "unat (proposalCount (fst w)) + unat (1::uint256) < 2 ^ LENGTH(256)" by simp
  have u: "unat (proposalCount (fst w) + 1) = unat (proposalCount (fst w)) + 1"
    using lt by (simp only: unat_add_lem) simp
  from m b have c: "createProposal a now r v d w =
     Inr (proposalCount (fst w),
          (fst w)\<lparr>proposalCount := proposalCount (fst w) + 1,
                  proposals := (proposals (fst w))(proposalCount (fst w) :=
                     (proposals (fst w) (proposalCount (fst w)))
                       \<lparr>id := proposalCount (fst w), proposer := a, recipient := r,
                        amount := v, description := d, createdAt := now\<rparr>),
                  events := events (fst w) @ [ProposalCreated (proposalCount (fst w)) a r v d]\<rparr>,
          snd w)"
    by (simp add: createProposal_succeeds)
  show "\<exists>w'. transact (createProposal a now r v d) w = (Inr (proposalCount (fst w)), w')
           \<and> unat (proposalCount (fst w')) = unat (proposalCount (fst w)) + 1
           \<and> proposals (fst w') (proposalCount (fst w))
               = new_proposal (proposalCount (fst w)) a now r v d
           \<and> (\<forall>j. j \<noteq> proposalCount (fst w) \<longrightarrow> proposals (fst w') j = proposals (fst w) j)
           \<and> deposits (fst w') = deposits (fst w)
           \<and> totalDeposits (fst w') = totalDeposits (fst w)
           \<and> snd w' = snd w"
    by (simp add: transact_def c u e empty_proposal_def new_proposal_def)
next
  assume h: "transact (createProposal a now r v d) w = (Inr n, w1) \<and> w2 = run tok w1 ts
        \<and> transact (createProposal a' now' r' v' d') w2 = (Inr n', w3)"
  then have c1: "createProposal a now r v d w = Inr (n, w1)"
    using transact_cases [of "createProposal a now r v d" w] by auto
  from h have c2: "createProposal a' now' r' v' d' w2 = Inr (n', w3)"
    using transact_cases [of "createProposal a' now' r' v' d'" w2] by auto
  from c1 have n: "n = proposalCount (fst w)" and s1: "latched n {} False w1"
    using createProposal_id by blast+
  from s1 have "latched n {} False (run tok w1 ts)" by (rule run_latched)
  with h have "latched n {} False w2" by simp
  then have "n < proposalCount (fst w2)" by (simp add: latched_def)
  moreover from c2 have "n' = proposalCount (fst w2)" using createProposal_id by blast
  ultimately show "n < n'" by simp
  from n show "n = proposalCount (fst w)" .
  from c1 show "unat (proposalCount (fst w1)) = unat n + 1"
    by (auto simp: createProposal_def Let_def split: if_splits sum.splits dest!: checked_add_Inr)
qed

text \<open>
  On the example: after the members have joined (a state reached from the constructor),
  address 9 is refused, member 3 is refused for the zero recipient and for the zero
  amount, and member 3's proposal gets id 0 with empty tallies; after the deposit and
  that proposal, the next proposal gets id 1.
\<close>

theorem createProposal_sequential_witness:
  "constructor 100 200 1 = Inr deployed
   \<and> transact (createProposal 9 2 9 100 ''audit'') joined = (Inl NotMember, joined)
   \<and> transact (createProposal 3 2 0 100 ''audit'') joined = (Inl InvalidRecipient, joined)
   \<and> transact (createProposal 3 2 9 0 ''audit'') joined = (Inl InvalidAmount, joined)
   \<and> fst (transact (createProposal 3 2 9 100 ''audit'') joined) = Inr 0
   \<and> proposals (fst (snd (transact (createProposal 3 2 9 100 ''audit'') joined))) 0
       = new_proposal 0 3 2 9 100 ''audit''
   \<and> fst (transact (createProposal 3 3 9 5000 ''audit'') pending) = Inr 1"
proof -
  have c: "constructor 100 200 1 = Inr deployed"
    by (simp add: constructor_def deployed_def)
  have m: "isMember (fst joined) 3" "\<not> isMember (fst joined) 9"
    and z: "proposalCount (fst joined) = 0"
    by (simp_all add: contract_defs example_defs)
  have one: "fst (transact (createProposal 3 3 9 5000 ''audit'') pending) = Inr 1"
    by (simp add: contract_defs example_defs)
  note nm = createProposal_sequential [where w = joined and a = 9 and now = 2 and r = 9
      and v = 100 and d = "''audit''", THEN conjunct1, THEN mp, OF m(2)]
  from m(1) have "isMember (fst joined) 3 \<and> (0::address) = 0" by simp
  note ir = createProposal_sequential [where w = joined and a = 3 and now = 2 and r = 0
      and v = 100 and d = "''audit''", THEN conjunct2, THEN conjunct1, THEN mp, OF this]
  from m(1) have "isMember (fst joined) 3 \<and> (9::address) \<noteq> 0 \<and> (0::uint256) = 0" by simp
  note ia = createProposal_sequential [where w = joined and a = 3 and now = 2 and r = 9
      and v = 0 and d = "''audit''", THEN conjunct2, THEN conjunct2, THEN conjunct1,
      THEN mp, OF this]
  from c m(1) z have "constructor 100 200 1 = Inr deployed
      \<and> joined = run pausable_token (deployed, funded) joining
      \<and> isMember (fst joined) 3 \<and> (9::address) \<noteq> 0 \<and> (100::uint256) \<noteq> 0
      \<and> unat (proposalCount (fst joined)) + 1 < 2 ^ 256"
    by (simp add: joined_def)
  note ok = createProposal_sequential [where w = joined and a = 3 and now = 2 and r = 9
      and v = 100 and d = "''audit''" and this = 100 and tk = 200 and own = 1
      and ?l0.0 = deployed and ?ts0.0 = funded and txs = joining and tok = pausable_token,
      THEN conjunct2, THEN conjunct2, THEN conjunct2, THEN conjunct1, THEN mp, OF this]
  from ok z obtain w' where
    "transact (createProposal 3 2 9 100 ''audit'') joined = (Inr 0, w')"
    "proposals (fst w') 0 = new_proposal 0 3 2 9 100 ''audit''"
    by auto
  then have "fst (transact (createProposal 3 2 9 100 ''audit'') joined) = Inr 0
    \<and> proposals (fst (snd (transact (createProposal 3 2 9 100 ''audit'') joined))) 0
       = new_proposal 0 3 2 9 100 ''audit''"
    by simp
  with c nm ir ia one show ?thesis by simp
qed


text \<open>
  C10. \<open>removeMember\<close> clears the \<open>isMember\<close> flag and lowers \<open>memberCount\<close> by
  one but leaves the \<open>members\<close> array as it is, and no transaction ever shortens the
  array: \<open>getAllMembers\<close> after any history starts with what it returned before.
  \<open>addMember\<close> appends to the array, so adding an identity that is already in it (one
  that was removed) makes the array hold it twice. On the deployed contract, adding and
  removing identity 2 leaves \<open>getAllMembers = [2]\<close> with 2 no member and
  \<open>memberCount = 0\<close>; adding 2 again gives \<open>[2, 2]\<close> with \<open>memberCount = 1\<close>.
\<close>

theorem members_array_keeps_removed:
  "(transact (removeMember s m) w = (Inr (), w') \<longrightarrow>
      getAllMembers w' = getAllMembers w \<and> checkMember m w \<and> \<not> checkMember m w'
      \<and> unat (memberCount (fst w')) + 1 = unat (memberCount (fst w)))
   \<and> (transact (addMember s m) w = (Inr (), w') \<longrightarrow>
      getAllMembers w' = getAllMembers w @ [m] \<and> checkMember m w'
      \<and> unat (memberCount (fst w')) = unat (memberCount (fst w)) + 1
      \<and> (m \<in> set (getAllMembers w) \<longrightarrow> \<not> distinct (getAllMembers w')))
   \<and> (\<exists>ys. getAllMembers (run tok w ts) = getAllMembers w @ ys)
   \<and> getAllMembers (run pausable_token (deployed, funded) leaving) = [2]
   \<and> checkMember 2 (run pausable_token (deployed, funded) leaving) = False
   \<and> memberCount (fst (run pausable_token (deployed, funded) leaving)) = 0
   \<and> getAllMembers (run pausable_token (deployed, funded) rejoining) = [2, 2]
   \<and> memberCount (fst (run pausable_token (deployed, funded) rejoining)) = 1"
proof (intro conjI impI)
  assume "transact (removeMember s m) w = (Inr (), w')"
  then have r: "removeMember s m w = Inr ((), w')"
    using transact_cases [of "removeMember s m" w] by auto
  then show "getAllMembers w' = getAllMembers w" "\<not> checkMember m w'"
    "unat (memberCount (fst w')) + 1 = unat (memberCount (fst w))"
    using removeMember_effect [OF r] by (simp_all add: getAllMembers_def checkMember_def)
  from r show "checkMember m w"
    by (auto simp: removeMember_def checkMember_def Let_def split: if_splits)
next
  assume "transact (addMember s m) w = (Inr (), w')"
  then have a: "addMember s m w = Inr ((), w')"
    using transact_cases [of "addMember s m" w] by auto
  then show "getAllMembers w' = getAllMembers w @ [m]" "checkMember m w'"
    "unat (memberCount (fst w')) = unat (memberCount (fst w)) + 1"
    using addMember_effect [OF a] by (simp_all add: getAllMembers_def checkMember_def)
  {
    assume "m \<in> set (getAllMembers w)"
    then show "\<not> distinct (getAllMembers w')"
      using addMember_effect [OF a] by (simp add: getAllMembers_def)
  }
next
  show "\<exists>ys. getAllMembers (run tok w ts) = getAllMembers w @ ys"
    using run_members [of tok w ts] by (simp add: getAllMembers_def)
next
  show "getAllMembers (run pausable_token (deployed, funded) leaving) = [2]"
    by (simp add: contract_defs deployed_def leaving_def getAllMembers_def)
  show "checkMember 2 (run pausable_token (deployed, funded) leaving) = False"
    by (simp add: contract_defs deployed_def leaving_def checkMember_def)
  show "memberCount (fst (run pausable_token (deployed, funded) leaving)) = 0"
    by (simp add: contract_defs deployed_def leaving_def)
  show "getAllMembers (run pausable_token (deployed, funded) rejoining) = [2, 2]"
    by (simp add: contract_defs deployed_def leaving_def rejoining_def getAllMembers_def)
  show "memberCount (fst (run pausable_token (deployed, funded) rejoining)) = 1"
    by (simp add: contract_defs deployed_def leaving_def rejoining_def)
qed

text \<open>
  On the example: the owner removes member 4 and the array still lists 4; the owner adds
  4 again and the array lists it twice, four entries for three members.
\<close>

theorem members_array_keeps_removed_witness:
  "fst (transact (removeMember 1 4) joined) = Inr ()
   \<and> getAllMembers (snd (transact (removeMember 1 4) joined)) = [2, 3, 4]
   \<and> checkMember 4 (snd (transact (removeMember 1 4) joined)) = False
   \<and> getAllMembers (snd (transact (addMember 1 4) (snd (transact (removeMember 1 4) joined))))
       = [2, 3, 4, 4]
   \<and> memberCount (fst (snd (transact (addMember 1 4)
        (snd (transact (removeMember 1 4) joined))))) = 3
   \<and> distinct (getAllMembers (snd (transact (addMember 1 4)
        (snd (transact (removeMember 1 4) joined))))) = False"
proof -
  have rf: "fst (transact (removeMember 1 4) joined) = Inr ()"
    by (simp add: contract_defs example_defs)
  then have r: "transact (removeMember 1 4) joined
             = (Inr (), snd (transact (removeMember 1 4) joined))"
    by (simp add: prod_eq_iff)
  have j: "getAllMembers joined = [2, 3, 4]"
    by (simp add: contract_defs example_defs getAllMembers_def)
  have "fst (transact (addMember 1 4) (snd (transact (removeMember 1 4) joined))) = Inr ()"
    by (simp add: contract_defs example_defs)
  then have a: "transact (addMember 1 4) (snd (transact (removeMember 1 4) joined))
             = (Inr (), snd (transact (addMember 1 4) (snd (transact (removeMember 1 4) joined))))"
    by (simp add: prod_eq_iff)
  have c: "memberCount (fst (snd (transact (addMember 1 4)
        (snd (transact (removeMember 1 4) joined))))) = 3"
    by (simp add: contract_defs example_defs)
  note rm = members_array_keeps_removed [where s = 1 and m = 4 and w = joined
      and w' = "snd (transact (removeMember 1 4) joined)", THEN conjunct1, THEN mp, OF r]
  note am = members_array_keeps_removed [where s = 1 and m = 4
      and w = "snd (transact (removeMember 1 4) joined)"
      and w' = "snd (transact (addMember 1 4) (snd (transact (removeMember 1 4) joined)))",
      THEN conjunct2, THEN conjunct1, THEN mp, OF a]
  from rf j c rm am show ?thesis by simp
qed


section \<open>The oracle's decision against the rule list\<close>

lemma lower_keywords:
  "toLowerCase ''emergency'' = ''emergency''"
  "toLowerCase ''subscription'' = ''subscription''"
  "toLowerCase ''gas'' = ''gas''"
  "toLowerCase ''urgent'' = ''urgent''"
  by (simp_all add: toLowerCase_def)

text \<open>
  On the Numbers it computes, \<open>aiDecision\<close> is the rule list: the order of the rules,
  the keywords and the thresholds are those of the specification. What it feeds the rules
  is the amount rounded to a Number and the rounded difference of two Numbers.
\<close>

lemma aiDecision_rule_list:
  "aiDecision tok w p d \<longleftrightarrow>
     oracle_policy (Number (formatEther (amount p))) d
       (minus_Number (Number (formatEther (getTreasuryBalance tok w)))
                     (Number (formatEther (amount p)))) = Approved"
  by (simp add: aiDecision_def oracle_policy_def reference_rules_def contains_ci_def
      lower_keywords Let_def)

lemma urgent_keywords:
  "\<not> includes_str ''urgent'' ''emergency''"
  "\<not> includes_str ''urgent'' ''subscription''"
  "\<not> includes_str ''urgent'' ''gas''"
  "includes_str ''urgent'' ''urgent''"
  by code_simp+

lemma emergency_keywords:
  "toLowerCase ''Emergency repair'' = ''emergency repair''"
  "includes_str ''emergency repair'' ''emergency''"
  "\<not> includes_str ''emergency repair'' ''subscription''"
  "\<not> includes_str ''emergency repair'' ''gas''"
  "\<not> includes_str ''emergency repair'' ''urgent''"
  by code_simp+

lemma formatEther_values:
  "formatEther 1 = 1 / 1000000000000000000"
  "formatEther 100000000000000000000 = 100"
  "formatEther 500000000000000000000 = 500"
  "formatEther 9999999999999999999 = 9999999999999999999 / 1000000000000000000"
  by (simp_all add: formatEther_def)

lemma Number_values:
  "Number (1 / 1000000000000000000) < 20"
  "minus_Number (Number 100) (Number (1 / 1000000000000000000)) = 100"
  "Number (9999999999999999999 / 1000000000000000000) = 10"
  "minus_Number (Number 500) 10 = 490"
  by code_simp+

text \<open>
  C3. The decision is to follow the ordered rule list on the amount, the description and
  the treasury balance in token units. The code departs from it at the thresholds, because
  it compares Numbers. With a treasury of exactly 100 tokens and a proposal "urgent" for
  one wei, the balance after execution is below 100 tokens, so rule 4 defers; the code
  computes \<open>100 - 1e-18 = 100\<close>, skips rule 4 and approves by rule 5. With a proposal
  "Emergency repair" for one wei less than 10 tokens and a treasury of 500 tokens, rule 1
  approves; the code reads the amount as \<open>10\<close> and skips the proposal.
\<close>

theorem aiDecision_rounds_at_thresholds:
  "aiDecision pausable_token hundred_tokens one_wei_urgent ''urgent''
   \<and> oracle_policy (formatEther (amount one_wei_urgent)) ''urgent''
        (formatEther (getTreasuryBalance pausable_token hundred_tokens)
           - formatEther (amount one_wei_urgent)) = Deferred
   \<and> \<not> aiDecision pausable_token five_hundred_tokens nearly_ten_emergency ''Emergency repair''
   \<and> oracle_policy (formatEther (amount nearly_ten_emergency)) ''Emergency repair''
        (formatEther (getTreasuryBalance pausable_token five_hundred_tokens)
           - formatEther (amount nearly_ten_emergency)) = Approved"
proof -
  have a: "amount one_wei_urgent = 1" "amount nearly_ten_emergency = 9999999999999999999"
    by (simp_all add: one_wei_urgent_def nearly_ten_emergency_def new_proposal_def)
  have b: "getTreasuryBalance pausable_token hundred_tokens = 100000000000000000000"
    "getTreasuryBalance pausable_token five_hundred_tokens = 500000000000000000000"
    by (simp_all add: getTreasuryBalance_def pausable_token_def hundred_tokens_def
        five_hundred_tokens_def deployed_def)
  have "aiDecision pausable_token hundred_tokens one_wei_urgent ''urgent''"
    by (simp add: aiDecision_def Let_def a b lower_keywords urgent_keywords
        formatEther_values Number_values)
  moreover have "oracle_policy (formatEther (amount one_wei_urgent)) ''urgent''
        (formatEther (getTreasuryBalance pausable_token hundred_tokens)
           - formatEther (amount one_wei_urgent)) = Deferred"
    by (simp add: oracle_policy_def reference_rules_def contains_ci_def a b lower_keywords
        urgent_keywords formatEther_values)
  moreover have "\<not> aiDecision pausable_token five_hundred_tokens nearly_ten_emergency
        ''Emergency repair''"
    by (simp add: aiDecision_def Let_def a b emergency_keywords formatEther_values
        Number_values)
  moreover have "oracle_policy (formatEther (amount nearly_ten_emergency)) ''Emergency repair''
        (formatEther (getTreasuryBalance pausable_token five_hundred_tokens)
           - formatEther (amount nearly_ten_emergency)) = Approved"
    by (simp add: oracle_policy_def reference_rules_def contains_ci_def a b lower_keywords
        emergency_keywords formatEther_values)
  ultimately show ?thesis by simp
qed

end
